theory Spec2Isabelle
  imports Complex_Main
begin

section \<open>Hot flow stress after Luton and Sellars: the notebook's model\<close>

text \<open>
  The notebook \<^verbatim>\<open>LutonSellarsHotFlowStressModelling.ipynb\<close> computes with Python
  floats. It is embedded twice. The first embedding uses the real numbers: every
  arithmetic operation is the exact one. The second embedding (further below) uses
  IEEE 754 doubles with rounding, infinities, \<^verbatim>\<open>nan\<close> and the exceptions that Python
  raises; it shows where the notebook leaves the exact model.
\<close>

section \<open>The notebook in exact arithmetic\<close>

subsection \<open>Constitutive laws (cells 24, 27, 30)\<close>

definition ludvig_k0 :: real where
  "ludvig_k0 = 100"

definition ludvig_n :: real where
  "ludvig_n = 0.2"

text \<open>
  \<^verbatim>\<open>ludvig_k0 * (strain + 0.01) ** ludvig_n\<close>: a power with a float exponent, which is
  \<open>powr\<close> for a positive base. The base is positive whenever the strain is not
  negative, which holds for every portion when \<open>strain_step \<ge> 0\<close>.
\<close>

definition ludwik :: "real \<Rightarrow> real" where
  "ludwik strain = ludvig_k0 * (strain + 0.01) powr ludvig_n"

definition avrami_k :: real where
  "avrami_k = 0.2"

text \<open>The exponent is the integer literal \<^verbatim>\<open>2\<close>.\<close>

definition avrami_n :: nat where
  "avrami_n = 2"

definition avrami :: "real \<Rightarrow> real" where
  "avrami time = 1 - exp (- avrami_k * time ^ avrami_n)"

definition avrami_increment :: "real \<Rightarrow> real \<Rightarrow> real" where
  "avrami_increment time increment = avrami (time + increment) - avrami time"

subsection \<open>The class \<^verbatim>\<open>Portion\<close> (cell 32)\<close>

record Portion =
  start_time :: real
  portion :: real
  start_portion :: real
  strain :: real

text \<open>\<^verbatim>\<open>Portion.__init__\<close>: the start time \<^verbatim>\<open>-1\<close> marks a portion that has not started.\<close>

definition Portion_init :: "real \<Rightarrow> Portion" where
  "Portion_init x = \<lparr>start_time = - 1, portion = x, start_portion = x, strain = 0\<rparr>"

definition flow_stress :: "Portion \<Rightarrow> real" where
  "flow_stress p = ludwik (strain p)"

subsection \<open>The solver (cell 36)\<close>

text \<open>
  The three module-level settings that \<^verbatim>\<open>luton_sellars_solve\<close> reads are passed
  as a record; \<open>notebook\<close> holds the values the cell assigns.
\<close>

record settings =
  strain_critical :: real
  strain_step :: real
  strain_max :: real

definition notebook :: settings where
  "notebook = \<lparr>strain_critical = 0.5, strain_step = 0.02, strain_max = 4\<rparr>"

text \<open>The local variables of \<^verbatim>\<open>luton_sellars_solve\<close> that the loop changes.\<close>

record solver =
  st_strain :: real
  st_t :: real
  st_portions :: "Portion list"
  st_results :: "(real \<times> real \<times> real) list"

text \<open>
  The body of \<^verbatim>\<open>for p in portions\<close> for one portion: it returns the portion as
  mutated and the running \<^verbatim>\<open>new_portion\<close>.
\<close>

definition portion_update :: "settings \<Rightarrow> real \<Rightarrow> real \<Rightarrow> Portion \<Rightarrow> real \<Rightarrow> Portion \<times> real" where
  "portion_update c t time_step p new_portion =
     (if strain p \<ge> strain_critical c then
        (let p1 = (if start_time p < 0 then p\<lparr>start_time := t\<rparr> else p);
             recrystallized_amount =
               avrami_increment (t - start_time p1) time_step * start_portion p1
         in (p1\<lparr>portion := portion p1 - recrystallized_amount,
                 strain := strain p1 + strain_step c\<rparr>,
             new_portion + recrystallized_amount))
      else (p\<lparr>strain := strain p + strain_step c\<rparr>, new_portion))"

fun for_portions :: "settings \<Rightarrow> real \<Rightarrow> real \<Rightarrow> Portion list \<Rightarrow> real \<Rightarrow> Portion list \<times> real" where
  "for_portions c t time_step [] new_portion = ([], new_portion)"
| "for_portions c t time_step (p # ps) new_portion =
     (case portion_update c t time_step p new_portion of
        (p', np) \<Rightarrow>
          (case for_portions c t time_step ps np of
             (ps', np') \<Rightarrow> (p' # ps', np')))"

text \<open>One pass through the body of \<^verbatim>\<open>while strain < strain_max\<close>.\<close>

definition loop_body :: "settings \<Rightarrow> real \<Rightarrow> solver \<Rightarrow> solver" where
  "loop_body c time_step st =
     (case for_portions c (st_t st) time_step (st_portions st) 0 of
        (ps, new_portion) \<Rightarrow>
          (let portions = (if new_portion > 0 then ps @ [Portion_init new_portion] else ps);
               strain' = st_strain st + strain_step c;
               t' = st_t st + time_step
           in \<lparr>st_strain = strain', st_t = t', st_portions = portions,
               st_results = st_results st @
                 [(t', strain', sum_list (map (\<lambda>p. portion p * flow_stress p) portions))]\<rparr>))"

text \<open>The loop may run forever (a step that is not positive): \<open>None\<close> is not returning.\<close>

partial_function (option) while_loop :: "settings \<Rightarrow> real \<Rightarrow> solver \<Rightarrow> solver option" where
  "while_loop c time_step st =
     (if st_strain st < strain_max c then while_loop c time_step (loop_body c time_step st)
      else Some st)"

definition initial :: solver where
  "initial = \<lparr>st_strain = 0, st_t = 0, st_portions = [Portion_init 1], st_results = []\<rparr>"

datatype error = ZeroDivisionError | OverflowError | ValueError

text \<open>
  \<^verbatim>\<open>luton_sellars_solve(rate)\<close>: the division \<^verbatim>\<open>strain_step / rate\<close> raises for a
  zero rate; otherwise the rows \<^verbatim>\<open>(t, strain, flow_stress)\<close> of the data frame are
  returned when the loop ends.
\<close>

definition luton_sellars_solve :: "settings \<Rightarrow> real \<Rightarrow> (error + (real \<times> real \<times> real) list) option" where
  "luton_sellars_solve c rate =
     (if rate = 0 then Some (Inl ZeroDivisionError)
      else (case while_loop c (strain_step c / rate) initial of
              None \<Rightarrow> None
            | Some st \<Rightarrow> Some (Inr (st_results st))))"

subsection \<open>All rates (cell 38)\<close>

text \<open>
  The list comprehension \<^verbatim>\<open>[luton_sellars_solve(rate) for rate in rates]\<close> runs the
  rates in order; it has no handler, so an exception of one run leaves the
  comprehension and the cell.
\<close>

fun solve_all :: "settings \<Rightarrow> real list \<Rightarrow> (error + (real \<times> real \<times> real) list list) option" where
  "solve_all c [] = Some (Inr [])"
| "solve_all c (rate # rates) =
     (case luton_sellars_solve c rate of
        None \<Rightarrow> None
      | Some (Inl e) \<Rightarrow> Some (Inl e)
      | Some (Inr frame) \<Rightarrow>
          (case solve_all c rates of
             None \<Rightarrow> None
           | Some (Inl e) \<Rightarrow> Some (Inl e)
           | Some (Inr frames) \<Rightarrow> Some (Inr (frame # frames))))"

text \<open>
  \<^verbatim>\<open>pd.concat(frames, keys=rates).reset_index(level=0, names="rate")\<close>: the rows of
  all frames in order, each with its rate in front. \<^verbatim>\<open>pd.concat\<close> raises
  \<^verbatim>\<open>ValueError\<close> when there is nothing to concatenate.
\<close>

definition results :: "settings \<Rightarrow> real list \<Rightarrow> (error + (real \<times> real \<times> real \<times> real) list) option" where
  "results c rates =
     (case solve_all c rates of
        None \<Rightarrow> None
      | Some (Inl e) \<Rightarrow> Some (Inl e)
      | Some (Inr frames) \<Rightarrow>
          (if frames = [] then Some (Inl ValueError)
           else Some (Inr (concat (map (\<lambda>(rate, frame). map (\<lambda>row. (rate, row)) frame)
                                       (zip rates frames))))))"

definition rates :: "real list" where
  "rates = [0.1, 0.2, 0.5, 1.0]"

subsection \<open>Notions used to state the properties\<close>

text \<open>The columns \<^verbatim>\<open>t\<close>, \<^verbatim>\<open>strain\<close> and \<^verbatim>\<open>flow_stress\<close> of a row.\<close>

definition col_t :: "real \<times> real \<times> real \<Rightarrow> real" where
  "col_t row = fst row"

definition col_strain :: "real \<times> real \<times> real \<Rightarrow> real" where
  "col_strain row = fst (snd row)"

definition col_flow_stress :: "real \<times> real \<times> real \<Rightarrow> real" where
  "col_flow_stress row = snd (snd row)"

text \<open>The local variables after \<open>j\<close> passes through the loop body.\<close>

definition after_steps :: "settings \<Rightarrow> real \<Rightarrow> nat \<Rightarrow> solver" where
  "after_steps c time_step j = (loop_body c time_step ^^ j) initial"

text \<open>The run at a given rate: its time step is \<^verbatim>\<open>strain_step / rate\<close>.\<close>

abbreviation state_after :: "settings \<Rightarrow> real \<Rightarrow> nat \<Rightarrow> solver" where
  "state_after c rate j \<equiv> after_steps c (strain_step c / rate) j"

abbreviation portions_after :: "settings \<Rightarrow> real \<Rightarrow> nat \<Rightarrow> Portion list" where
  "portions_after c rate j \<equiv> st_portions (state_after c rate j)"

text \<open>What one pass does to a portion, and the amount it moves to \<^verbatim>\<open>new_portion\<close>.\<close>

definition updated :: "settings \<Rightarrow> real \<Rightarrow> real \<Rightarrow> Portion \<Rightarrow> Portion" where
  "updated c t time_step p = fst (portion_update c t time_step p 0)"

definition recrystallized :: "settings \<Rightarrow> real \<Rightarrow> real \<Rightarrow> Portion \<Rightarrow> real" where
  "recrystallized c t time_step p = snd (portion_update c t time_step p 0)"

text \<open>
  The invariant of a portion at time \<open>t\<close>: a portion that has not started still has
  its whole share; one that has started at \<open>s\<close> has passed the critical strain and
  keeps the share \<open>start_portion * (1 - avrami (t - s))\<close>.
\<close>

definition portion_ok :: "settings \<Rightarrow> real \<Rightarrow> Portion \<Rightarrow> bool" where
  "portion_ok c t p \<longleftrightarrow>
     0 < start_portion p \<and>
     (if start_time p < 0 then start_time p = - 1 \<and> portion p = start_portion p
      else start_time p \<le> t \<and> strain_critical c \<le> strain p \<and>
           portion p = start_portion p * (1 - avrami (t - start_time p)))"

section \<open>The notebook in double precision\<close>

text \<open>
  The second embedding follows the same cells with IEEE 754 binary64 values and
  Python's rules for them: every arithmetic result is rounded to the nearest double
  (ties to even), results beyond the largest double become infinite, \<^verbatim>\<open>inf - inf\<close> is
  \<^verbatim>\<open>nan\<close>, a comparison with \<^verbatim>\<open>nan\<close> is false, float division by zero raises
  \<^verbatim>\<open>ZeroDivisionError\<close> and a float power that overflows raises \<^verbatim>\<open>OverflowError\<close>.
  The two zeros are not distinguished: no operation of the notebook tells them apart.
\<close>

subsection \<open>Doubles\<close>

datatype double = Finite real | PInf | NInf | NaN

text \<open>Rounding to the nearest integer, ties to even.\<close>

definition rne :: "real \<Rightarrow> int" where
  "rne x = (let f = \<lfloor>x\<rfloor> in
     if x - of_int f < 1 / 2 then f
     else if 1 / 2 < x - of_int f then f + 1
     else if even f then f else f + 1)"

text \<open>
  The exponent of the last mantissa bit of \<open>x\<close>: 52 below the binary exponent of
  \<open>x\<close>, which is not taken below \<open>-1022\<close> (subnormal numbers).
\<close>

definition ulp_exp :: "real \<Rightarrow> int" where
  "ulp_exp x = max \<lfloor>log 2 \<bar>x\<bar>\<rfloor> (- 1022) - 52"

text \<open>The double nearest to a real number; overflow gives an infinity.\<close>

definition rnd :: "real \<Rightarrow> double" where
  "rnd x = (if x = 0 then Finite 0
     else (let y = of_int (rne (x / 2 powi ulp_exp x)) * 2 powi ulp_exp x
           in if 2 powi 1024 \<le> \<bar>y\<bar> then (if 0 < x then PInf else NInf) else Finite y))"

text \<open>
  Negation, addition, subtraction and multiplication with the special cases of the
  standard, and the comparisons \<^verbatim>\<open><\<close> and \<^verbatim>\<open><=\<close>, which are false when an operand is
  \<^verbatim>\<open>nan\<close>. None of them raises.
\<close>

fun dneg :: "double \<Rightarrow> double" where
  "dneg (Finite a) = Finite (- a)"
| "dneg PInf = NInf"
| "dneg NInf = PInf"
| "dneg NaN = NaN"

fun dadd :: "double \<Rightarrow> double \<Rightarrow> double" where
  "dadd (Finite a) (Finite b) = rnd (a + b)"
| "dadd (Finite a) PInf = PInf"
| "dadd (Finite a) NInf = NInf"
| "dadd PInf (Finite b) = PInf"
| "dadd PInf PInf = PInf"
| "dadd PInf NInf = NaN"
| "dadd NInf (Finite b) = NInf"
| "dadd NInf NInf = NInf"
| "dadd NInf PInf = NaN"
| "dadd NaN b = NaN"
| "dadd a NaN = NaN"

definition dsub :: "double \<Rightarrow> double \<Rightarrow> double" where
  "dsub a b = dadd a (dneg b)"

fun dmul :: "double \<Rightarrow> double \<Rightarrow> double" where
  "dmul (Finite a) (Finite b) = rnd (a * b)"
| "dmul (Finite a) PInf = (if a = 0 then NaN else if 0 < a then PInf else NInf)"
| "dmul (Finite a) NInf = (if a = 0 then NaN else if 0 < a then NInf else PInf)"
| "dmul PInf (Finite b) = (if b = 0 then NaN else if 0 < b then PInf else NInf)"
| "dmul NInf (Finite b) = (if b = 0 then NaN else if 0 < b then NInf else PInf)"
| "dmul PInf PInf = PInf"
| "dmul PInf NInf = NInf"
| "dmul NInf PInf = NInf"
| "dmul NInf NInf = PInf"
| "dmul NaN b = NaN"
| "dmul a NaN = NaN"

fun dless :: "double \<Rightarrow> double \<Rightarrow> bool" where
  "dless (Finite a) (Finite b) \<longleftrightarrow> a < b"
| "dless (Finite a) PInf \<longleftrightarrow> True"
| "dless NInf (Finite b) \<longleftrightarrow> True"
| "dless NInf PInf \<longleftrightarrow> True"
| "dless a b \<longleftrightarrow> False"

fun dle :: "double \<Rightarrow> double \<Rightarrow> bool" where
  "dle (Finite a) (Finite b) \<longleftrightarrow> a \<le> b"
| "dle NaN b \<longleftrightarrow> False"
| "dle a NaN \<longleftrightarrow> False"
| "dle NInf b \<longleftrightarrow> True"
| "dle a PInf \<longleftrightarrow> True"
| "dle a b \<longleftrightarrow> False"

text \<open>Python's \<^verbatim>\<open>a / b\<close> on floats.\<close>

fun float_div :: "double \<Rightarrow> double \<Rightarrow> error + double" where
  "float_div a (Finite b) =
     (if b = 0 then Inl ZeroDivisionError
      else Inr (case a of
                  Finite a' \<Rightarrow> rnd (a' / b)
                | PInf \<Rightarrow> (if 0 < b then PInf else NInf)
                | NInf \<Rightarrow> (if 0 < b then NInf else PInf)
                | NaN \<Rightarrow> NaN))"
| "float_div (Finite a) PInf = Inr (Finite 0)"
| "float_div (Finite a) NInf = Inr (Finite 0)"
| "float_div a b = Inr NaN"

text \<open>
  Python's \<^verbatim>\<open>x ** n\<close> for a float \<open>x\<close> and an integer \<open>n \<ge> 0\<close>: the rounded power,
  \<^verbatim>\<open>OverflowError\<close> when a finite \<open>x\<close> gives a result beyond the doubles.
\<close>

fun float_pow :: "double \<Rightarrow> nat \<Rightarrow> error + double" where
  "float_pow x 0 = Inr (Finite 1)"
| "float_pow (Finite a) n =
     (case rnd (a ^ n) of
        PInf \<Rightarrow> Inl OverflowError
      | NInf \<Rightarrow> Inl OverflowError
      | y \<Rightarrow> Inr y)"
| "float_pow PInf n = Inr PInf"
| "float_pow NInf n = Inr (if even n then PInf else NInf)"
| "float_pow NaN n = Inr NaN"

text \<open>
  \<^verbatim>\<open>np.exp\<close>, taken as the correctly rounded exponential (the library's result may
  differ from it in the last digit); it never raises.
\<close>

fun np_exp :: "double \<Rightarrow> double" where
  "np_exp (Finite a) = rnd (exp a)"
| "np_exp PInf = PInf"
| "np_exp NInf = Finite 0"
| "np_exp NaN = NaN"

text \<open>
  A float power with a negative base and a fractional exponent is a complex number in
  Python, and so is every product and sum with it; \<open>ComplexVal\<close> stands for such a value.
\<close>

datatype pyval = Float double | ComplexVal

fun mul_pv :: "pyval \<Rightarrow> pyval \<Rightarrow> pyval" where
  "mul_pv (Float a) (Float b) = Float (dmul a b)"
| "mul_pv a b = ComplexVal"

fun add_pv :: "pyval \<Rightarrow> pyval \<Rightarrow> pyval" where
  "add_pv (Float a) (Float b) = Float (dadd a b)"
| "add_pv a b = ComplexVal"

fun float_pow_frac :: "double \<Rightarrow> double \<Rightarrow> pyval" where
  "float_pow_frac (Finite a) (Finite y) =
     (if a < 0 then ComplexVal else if a = 0 then Float (Finite 0) else Float (rnd (a powr y)))"
| "float_pow_frac PInf (Finite y) = Float PInf"
| "float_pow_frac NInf (Finite y) = Float PInf"
| "float_pow_frac x y = Float NaN"

subsection \<open>The cells in double precision\<close>

text \<open>The literals \<^verbatim>\<open>0.2\<close> and \<^verbatim>\<open>0.01\<close> are the doubles nearest to them.\<close>

definition ludvig_k0_d :: double where
  "ludvig_k0_d = Finite 100"

definition ludvig_n_d :: double where
  "ludvig_n_d = rnd 0.2"

definition ludwik_d :: "double \<Rightarrow> pyval" where
  "ludwik_d s = mul_pv (Float ludvig_k0_d) (float_pow_frac (dadd s (rnd 0.01)) ludvig_n_d)"

text \<open>\<^verbatim>\<open>1 - np.exp(-avrami_k * time**avrami_n)\<close>; the power is evaluated first and may raise.\<close>

definition avrami_k_d :: double where
  "avrami_k_d = rnd 0.2"

definition avrami_d :: "double \<Rightarrow> error + double" where
  "avrami_d time =
     (case float_pow time avrami_n of
        Inl e \<Rightarrow> Inl e
      | Inr p \<Rightarrow> Inr (dsub (Finite 1) (np_exp (dmul (dneg avrami_k_d) p))))"

text \<open>The left operand of the difference is evaluated first.\<close>

definition avrami_increment_d :: "double \<Rightarrow> double \<Rightarrow> error + double" where
  "avrami_increment_d time increment =
     (case avrami_d (dadd time increment) of
        Inl e \<Rightarrow> Inl e
      | Inr a \<Rightarrow> (case avrami_d time of Inl e \<Rightarrow> Inl e | Inr b \<Rightarrow> Inr (dsub a b)))"

text \<open>The class, the settings and the solver's variables, with doubles.\<close>

record Portion_d =
  start_time_d :: double
  portion_d :: double
  start_portion_d :: double
  strain_d :: double

definition Portion_init_d :: "double \<Rightarrow> Portion_d" where
  "Portion_init_d x =
     \<lparr>start_time_d = Finite (- 1), portion_d = x, start_portion_d = x, strain_d = Finite 0\<rparr>"

definition flow_stress_d :: "Portion_d \<Rightarrow> pyval" where
  "flow_stress_d p = ludwik_d (strain_d p)"

record settings_d =
  strain_critical_d :: double
  strain_step_d :: double
  strain_max_d :: double

record solver_d =
  d_strain :: double
  d_t :: double
  d_portions :: "Portion_d list"
  d_results :: "(double \<times> double \<times> pyval) list"

definition portion_update_d ::
  "settings_d \<Rightarrow> double \<Rightarrow> double \<Rightarrow> Portion_d \<Rightarrow> double \<Rightarrow> error + Portion_d \<times> double" where
  "portion_update_d c t time_step p new_portion =
     (if dle (strain_critical_d c) (strain_d p) then
        (let p1 = (if dless (start_time_d p) (Finite 0) then p\<lparr>start_time_d := t\<rparr> else p)
         in case avrami_increment_d (dsub t (start_time_d p1)) time_step of
              Inl e \<Rightarrow> Inl e
            | Inr a \<Rightarrow>
                (let recrystallized_amount = dmul a (start_portion_d p1)
                 in Inr (p1\<lparr>portion_d := dsub (portion_d p1) recrystallized_amount,
                            strain_d := dadd (strain_d p1) (strain_step_d c)\<rparr>,
                         dadd new_portion recrystallized_amount)))
      else Inr (p\<lparr>strain_d := dadd (strain_d p) (strain_step_d c)\<rparr>, new_portion))"

fun for_portions_d ::
  "settings_d \<Rightarrow> double \<Rightarrow> double \<Rightarrow> Portion_d list \<Rightarrow> double \<Rightarrow> error + Portion_d list \<times> double" where
  "for_portions_d c t time_step [] new_portion = Inr ([], new_portion)"
| "for_portions_d c t time_step (p # ps) new_portion =
     (case portion_update_d c t time_step p new_portion of
        Inl e \<Rightarrow> Inl e
      | Inr (p', np) \<Rightarrow>
          (case for_portions_d c t time_step ps np of
             Inl e \<Rightarrow> Inl e
           | Inr (ps', np') \<Rightarrow> Inr (p' # ps', np')))"

text \<open>\<^verbatim>\<open>sum(p.portion * p.flow_stress() for p in portions)\<close>, added from the left, from 0.\<close>

definition sum_stress_d :: "Portion_d list \<Rightarrow> pyval" where
  "sum_stress_d ps =
     foldl add_pv (Float (Finite 0)) (map (\<lambda>p. mul_pv (Float (portion_d p)) (flow_stress_d p)) ps)"

definition loop_body_d :: "settings_d \<Rightarrow> double \<Rightarrow> solver_d \<Rightarrow> error + solver_d" where
  "loop_body_d c time_step st =
     (case for_portions_d c (d_t st) time_step (d_portions st) (Finite 0) of
        Inl e \<Rightarrow> Inl e
      | Inr (ps, new_portion) \<Rightarrow>
          (let portions = (if dless (Finite 0) new_portion then ps @ [Portion_init_d new_portion] else ps);
               strain' = dadd (d_strain st) (strain_step_d c);
               t' = dadd (d_t st) time_step
           in Inr \<lparr>d_strain = strain', d_t = t', d_portions = portions,
                   d_results = d_results st @ [(t', strain', sum_stress_d portions)]\<rparr>))"

text \<open>An exception in a pass ends the loop; \<open>None\<close> is not returning.\<close>

partial_function (option) while_loop_d ::
  "settings_d \<Rightarrow> double \<Rightarrow> solver_d \<Rightarrow> (error + solver_d) option" where
  "while_loop_d c time_step st =
     (if dless (d_strain st) (strain_max_d c) then
        (case loop_body_d c time_step st of
           Inl e \<Rightarrow> Some (Inl e)
         | Inr st' \<Rightarrow> while_loop_d c time_step st')
      else Some (Inr st))"

definition initial_d :: solver_d where
  "initial_d = \<lparr>d_strain = Finite 0, d_t = Finite 0, d_portions = [Portion_init_d (Finite 1)],
                 d_results = []\<rparr>"

definition luton_sellars_solve_d ::
  "settings_d \<Rightarrow> double \<Rightarrow> (error + (double \<times> double \<times> pyval) list) option" where
  "luton_sellars_solve_d c rate =
     (case float_div (strain_step_d c) rate of
        Inl e \<Rightarrow> Some (Inl e)
      | Inr time_step \<Rightarrow>
          (case while_loop_d c time_step initial_d of
             None \<Rightarrow> None
           | Some (Inl e) \<Rightarrow> Some (Inl e)
           | Some (Inr st) \<Rightarrow> Some (Inr (d_results st))))"

text \<open>Cell 38 in double precision.\<close>

fun solve_all_d ::
  "settings_d \<Rightarrow> double list \<Rightarrow> (error + (double \<times> double \<times> pyval) list list) option" where
  "solve_all_d c [] = Some (Inr [])"
| "solve_all_d c (rate # rs) =
     (case luton_sellars_solve_d c rate of
        None \<Rightarrow> None
      | Some (Inl e) \<Rightarrow> Some (Inl e)
      | Some (Inr frame) \<Rightarrow>
          (case solve_all_d c rs of
             None \<Rightarrow> None
           | Some (Inl e) \<Rightarrow> Some (Inl e)
           | Some (Inr frames) \<Rightarrow> Some (Inr (frame # frames))))"

definition results_d ::
  "settings_d \<Rightarrow> double list \<Rightarrow> (error + (double \<times> double \<times> double \<times> pyval) list) option" where
  "results_d c rs =
     (case solve_all_d c rs of
        None \<Rightarrow> None
      | Some (Inl e) \<Rightarrow> Some (Inl e)
      | Some (Inr frames) \<Rightarrow>
          (if frames = [] then Some (Inl ValueError)
           else Some (Inr (concat (map (\<lambda>(rate, frame). map (\<lambda>row. (rate, row)) frame)
                                       (zip rs frames))))))"

section \<open>The laws\<close>

lemma one_minus_avrami: "1 - avrami x = exp (- avrami_k * x ^ avrami_n)"
  by (simp add: avrami_def)

lemma avrami_zero: "avrami 0 = 0"
  by (simp add: avrami_def avrami_n_def)


lemma avrami_strict_mono: "0 \<le> a \<Longrightarrow> a < b \<Longrightarrow> avrami a < avrami b"
proof -
  assume a: "0 \<le> a" and ab: "a < b"
  have "a ^ avrami_n < b ^ avrami_n"
    using a ab by (simp add: avrami_n_def power_strict_mono)
  then show ?thesis
    by (simp add: avrami_def avrami_k_def)
qed

lemma avrami_mono: "0 \<le> a \<Longrightarrow> a \<le> b \<Longrightarrow> avrami a \<le> avrami b"
  using avrami_strict_mono [of a b] by (cases "a = b") auto


lemma avrami_tendsto: "(avrami \<longlongrightarrow> 1) at_top"
proof -
  have pw: "filterlim (\<lambda>x::real. x ^ avrami_n) at_top at_top"
    by (simp add: avrami_n_def filterlim_pow_at_top filterlim_ident)
  have "((\<lambda>x::real. - avrami_k) \<longlongrightarrow> - avrami_k) at_top"
    by (rule tendsto_const)
  moreover have "- avrami_k < 0"
    by (simp add: avrami_k_def)
  ultimately have "filterlim (\<lambda>x::real. - avrami_k * x ^ avrami_n) at_bot at_top"
    using pw by (rule filterlim_tendsto_neg_mult_at_bot)
  then have "((\<lambda>x. exp (- avrami_k * x ^ avrami_n)) \<longlongrightarrow> 0) at_top"
    by (rule filterlim_compose [OF exp_at_bot])
  then have "((\<lambda>x. 1 - exp (- avrami_k * x ^ avrami_n)) \<longlongrightarrow> 1 - 0) at_top"
    by (intro tendsto_intros)
  then show ?thesis
    by (simp add: avrami_def [abs_def])
qed

section \<open>The loop\<close>

lemma portion_update_split:
  "portion_update c t dt p np = (updated c t dt p, np + recrystallized c t dt p)"
  by (simp add: portion_update_def updated_def recrystallized_def Let_def)

lemma for_portions_split:
  "for_portions c t dt ps np =
     (map (updated c t dt) ps, np + sum_list (map (recrystallized c t dt) ps))"
  by (induction ps arbitrary: np) (simp_all add: portion_update_split)

lemma loop_body_fields:
  "st_strain (loop_body c dt st) = st_strain st + strain_step c"
  "st_t (loop_body c dt st) = st_t st + dt"
  "st_portions (loop_body c dt st) =
     map (updated c (st_t st) dt) (st_portions st) @
     (if 0 < sum_list (map (recrystallized c (st_t st) dt) (st_portions st))
      then [Portion_init (sum_list (map (recrystallized c (st_t st) dt) (st_portions st)))]
      else [])"
  "st_results (loop_body c dt st) =
     st_results st @
     [(st_t st + dt, st_strain st + strain_step c,
       sum_list (map (\<lambda>p. portion p * flow_stress p) (st_portions (loop_body c dt st))))]"
  by (simp_all add: loop_body_def for_portions_split Let_def)

lemma after_steps_0: "after_steps c dt 0 = initial"
  by (simp add: after_steps_def)

lemma after_steps_Suc: "after_steps c dt (Suc j) = loop_body c dt (after_steps c dt j)"
  by (simp add: after_steps_def)

lemma strain_after_steps: "st_strain (after_steps c dt j) = real j * strain_step c"
  by (induction j) (simp_all add: after_steps_0 after_steps_Suc loop_body_fields initial_def algebra_simps)

lemma t_after_steps: "st_t (after_steps c dt j) = real j * dt"
  by (induction j) (simp_all add: after_steps_0 after_steps_Suc loop_body_fields initial_def algebra_simps)

lemma length_results_after_steps: "length (st_results (after_steps c dt j)) = j"
  by (induction j) (simp_all add: after_steps_0 after_steps_Suc loop_body_fields initial_def)

lemma results_after_steps_prefix:
  "k < j \<Longrightarrow> st_results (after_steps c dt (Suc j)) ! k = st_results (after_steps c dt j) ! k"
  by (simp add: after_steps_Suc loop_body_fields nth_append length_results_after_steps)

lemma results_after_steps_nth:
  "k < j \<Longrightarrow> st_results (after_steps c dt j) ! k =
     (real (Suc k) * dt, real (Suc k) * strain_step c,
      sum_list (map (\<lambda>p. portion p * flow_stress p) (st_portions (after_steps c dt (Suc k)))))"
proof (induction j)
  case 0
  then show ?case by simp
next
  case (Suc j)
  show ?case
  proof (cases "k < j")
    case True
    with Suc.IH show ?thesis by (simp add: results_after_steps_prefix)
  next
    case False
    with Suc.prems have kj: "k = j" by simp
    have "st_results (after_steps c dt (Suc j)) ! j =
          (st_t (after_steps c dt j) + dt, st_strain (after_steps c dt j) + strain_step c,
           sum_list (map (\<lambda>p. portion p * flow_stress p) (st_portions (after_steps c dt (Suc j)))))"
      by (simp add: after_steps_Suc loop_body_fields(4) nth_append length_results_after_steps)
    then show ?thesis
      by (simp add: kj strain_after_steps t_after_steps algebra_simps)
  qed
qed

lemma while_loop_funpow:
  "(\<And>i. i < n \<Longrightarrow> st_strain ((loop_body c dt ^^ i) st) < strain_max c) \<Longrightarrow>
   \<not> st_strain ((loop_body c dt ^^ n) st) < strain_max c \<Longrightarrow>
   while_loop c dt st = Some ((loop_body c dt ^^ n) st)"
proof (induction n arbitrary: st)
  case 0
  then show ?case by (subst while_loop.simps) simp
next
  case (Suc n)
  have guard: "st_strain st < strain_max c"
    using Suc.prems(1) [of 0] by simp
  have "while_loop c dt (loop_body c dt st) = Some ((loop_body c dt ^^ n) (loop_body c dt st))"
  proof (rule Suc.IH)
    fix i assume "i < n"
    then show "st_strain ((loop_body c dt ^^ i) (loop_body c dt st)) < strain_max c"
      using Suc.prems(1) [of "Suc i"] by (simp add: funpow_swap1)
  next
    show "\<not> st_strain ((loop_body c dt ^^ n) (loop_body c dt st)) < strain_max c"
      using Suc.prems(2) by (simp add: funpow_swap1)
  qed
  with guard show ?case
    by (subst while_loop.simps) (simp add: funpow_swap1)
qed

lemma guard_iff:
  assumes "0 < strain_step c"
  shows "real j * strain_step c < strain_max c \<longleftrightarrow> j < nat \<lceil>strain_max c / strain_step c\<rceil>"
proof -
  have "real j * strain_step c < strain_max c \<longleftrightarrow> real j < strain_max c / strain_step c"
    using assms by (simp add: pos_less_divide_eq)
  also have "\<dots> \<longleftrightarrow> int j < \<lceil>strain_max c / strain_step c\<rceil>"
    by (simp add: less_ceiling_iff)
  also have "\<dots> \<longleftrightarrow> j < nat \<lceil>strain_max c / strain_step c\<rceil>"
    by linarith
  finally show ?thesis .
qed

lemma while_loop_initial:
  assumes "0 < strain_step c"
  shows "while_loop c dt initial = Some (after_steps c dt (nat \<lceil>strain_max c / strain_step c\<rceil>))"
  unfolding after_steps_def
proof (rule while_loop_funpow)
  fix i assume "i < nat \<lceil>strain_max c / strain_step c\<rceil>"
  then show "st_strain ((loop_body c dt ^^ i) initial) < strain_max c"
    using guard_iff [OF assms, of i] strain_after_steps [of c dt i] by (simp add: after_steps_def)
next
  show "\<not> st_strain ((loop_body c dt ^^ nat \<lceil>strain_max c / strain_step c\<rceil>) initial) < strain_max c"
    using guard_iff [OF assms, of "nat \<lceil>strain_max c / strain_step c\<rceil>"]
      strain_after_steps [of c dt "nat \<lceil>strain_max c / strain_step c\<rceil>"]
    by (simp add: after_steps_def)
qed

lemma solve_returns:
  assumes "0 < strain_step c" "rate \<noteq> 0"
  shows "luton_sellars_solve c rate =
     Some (Inr (st_results (after_steps c (strain_step c / rate) (nat \<lceil>strain_max c / strain_step c\<rceil>))))"
  using assms by (simp add: luton_sellars_solve_def while_loop_initial)

subsection \<open>Shares of the portions\<close>

lemma updated_simps:
  "strain (updated c t dt p) = strain p + strain_step c"
  "start_portion (updated c t dt p) = start_portion p"
  "start_time (updated c t dt p) =
     (if strain_critical c \<le> strain p \<and> start_time p < 0 then t else start_time p)"
  by (simp_all add: updated_def portion_update_def Let_def)

lemma recrystallized_eq:
  "recrystallized c t dt p =
     (if strain_critical c \<le> strain p
      then avrami_increment (t - (if start_time p < 0 then t else start_time p)) dt * start_portion p
      else 0)"
  by (simp add: recrystallized_def portion_update_def Let_def)

lemma portion_updated:
  "portion (updated c t dt p) = portion p - recrystallized c t dt p"
  by (simp add: updated_def recrystallized_def portion_update_def Let_def)

lemma avrami_increment_nonneg: "0 \<le> x \<Longrightarrow> 0 \<le> dt \<Longrightarrow> 0 \<le> avrami_increment x dt"
  using avrami_mono [of x "x + dt"] by (simp add: avrami_increment_def)

lemma avrami_increment_pos: "0 \<le> x \<Longrightarrow> 0 < dt \<Longrightarrow> 0 < avrami_increment x dt"
  using avrami_strict_mono [of x "x + dt"] by (simp add: avrami_increment_def)

lemma recrystallized_nonneg:
  assumes "portion_ok c t p" "0 \<le> dt"
  shows "0 \<le> recrystallized c t dt p"
  using assms
  by (auto simp: recrystallized_eq portion_ok_def avrami_increment_nonneg split: if_splits)

lemma updated_ok:
  assumes ok: "portion_ok c t p" and t: "0 \<le> t" and dt: "0 \<le> dt" and step: "0 \<le> strain_step c"
  shows "portion_ok c (t + dt) (updated c t dt p)"
proof (cases "strain_critical c \<le> strain p")
  case False
  with ok have "start_time p < 0"
    by (auto simp: portion_ok_def split: if_splits)
  with ok False show ?thesis
    by (simp add: portion_ok_def updated_simps portion_updated recrystallized_eq)
next
  case crit: True
  show ?thesis
  proof (cases "start_time p < 0")
    case True
    with ok have "portion p = start_portion p" "0 < start_portion p"
      by (simp_all add: portion_ok_def)
    with crit True t dt step show ?thesis
      by (simp add: portion_ok_def updated_simps portion_updated recrystallized_eq
          avrami_increment_def avrami_zero algebra_simps)
  next
    case False
    with ok have "portion p = start_portion p * (1 - avrami (t - start_time p))"
      "0 < start_portion p" "start_time p \<le> t"
      by (simp_all add: portion_ok_def)
    moreover have "t + dt - start_time p = t - start_time p + dt"
      by simp
    ultimately show ?thesis
      using crit False t dt step
      by (simp add: portion_ok_def updated_simps portion_updated recrystallized_eq
          avrami_increment_def algebra_simps)
  qed
qed

lemma portion_ok_pos: "portion_ok c t p \<Longrightarrow> 0 < portion p"
  by (auto simp: portion_ok_def one_minus_avrami split: if_splits)

lemma Portion_init_ok: "0 < x \<Longrightarrow> portion_ok c t (Portion_init x)"
  by (simp add: portion_ok_def Portion_init_def)

lemma sum_portion_updated:
  "sum_list (map portion (map (updated c t dt) ps)) =
     sum_list (map portion ps) - sum_list (map (recrystallized c t dt) ps)"
  by (induction ps) (simp_all add: portion_updated)

lemma sum_recrystallized_nonneg:
  "(\<And>p. p \<in> set ps \<Longrightarrow> portion_ok c t p) \<Longrightarrow> 0 \<le> dt \<Longrightarrow>
     0 \<le> sum_list (map (recrystallized c t dt) ps)"
  by (induction ps) (simp_all add: recrystallized_nonneg)

lemma loop_body_sum_portion:
  assumes "\<And>p. p \<in> set (st_portions st) \<Longrightarrow> portion_ok c (st_t st) p" "0 \<le> dt"
  shows "sum_list (map portion (st_portions (loop_body c dt st))) =
     sum_list (map portion (st_portions st))"
proof -
  define r where "r = sum_list (map (recrystallized c (st_t st) dt) (st_portions st))"
  have r: "0 \<le> r"
    unfolding r_def using assms by (rule sum_recrystallized_nonneg)
  have upd: "sum_list (map portion (map (updated c (st_t st) dt) (st_portions st))) =
      sum_list (map portion (st_portions st)) - r"
    unfolding r_def by (rule sum_portion_updated)
  have "st_portions (loop_body c dt st) =
      map (updated c (st_t st) dt) (st_portions st) @ (if 0 < r then [Portion_init r] else [])"
    unfolding r_def by (rule loop_body_fields(3))
  then have "sum_list (map portion (st_portions (loop_body c dt st))) =
      sum_list (map portion (map (updated c (st_t st) dt) (st_portions st))) +
      (if 0 < r then r else 0)"
    by (simp add: Portion_init_def del: map_map)
  with upd r show ?thesis
    by simp
qed

lemma loop_body_ok:
  assumes "\<And>p. p \<in> set (st_portions st) \<Longrightarrow> portion_ok c (st_t st) p"
    "0 \<le> st_t st" "0 \<le> dt" "0 \<le> strain_step c"
    "q \<in> set (st_portions (loop_body c dt st))"
  shows "portion_ok c (st_t st + dt) q"
  using assms
  by (auto simp: loop_body_fields(3) updated_ok Portion_init_ok split: if_splits)

lemma after_steps_ok:
  assumes "0 \<le> dt" "0 \<le> strain_step c"
  shows "p \<in> set (st_portions (after_steps c dt j)) \<Longrightarrow> portion_ok c (real j * dt) p"
proof (induction j arbitrary: p)
  case 0
  then show ?case
    by (simp add: after_steps_0 initial_def Portion_init_ok)
next
  case (Suc j)
  have "portion_ok c (st_t (after_steps c dt j) + dt) p"
  proof (rule loop_body_ok)
    show "p \<in> set (st_portions (loop_body c dt (after_steps c dt j)))"
      using Suc.prems by (simp add: after_steps_Suc)
  qed (use Suc.IH assms in \<open>simp_all add: t_after_steps\<close>)
  then show ?case
    by (simp add: t_after_steps algebra_simps)
qed

lemma after_steps_sum_portion:
  assumes "0 \<le> dt" "0 \<le> strain_step c"
  shows "sum_list (map portion (st_portions (after_steps c dt j))) = 1"
proof (induction j)
  case 0
  show ?case by (simp add: after_steps_0 initial_def Portion_init_def)
next
  case (Suc j)
  have "sum_list (map portion (st_portions (loop_body c dt (after_steps c dt j)))) =
        sum_list (map portion (st_portions (after_steps c dt j)))"
    by (rule loop_body_sum_portion) (use assms after_steps_ok [OF assms] in \<open>simp_all add: t_after_steps\<close>)
  with Suc.IH show ?case
    by (simp add: after_steps_Suc)
qed

subsection \<open>Portions by position\<close>

lemma portions_Suc:
  "st_portions (after_steps c dt (Suc j)) =
     map (updated c (real j * dt) dt) (st_portions (after_steps c dt j)) @
     (if 0 < sum_list (map (recrystallized c (real j * dt) dt) (st_portions (after_steps c dt j)))
      then [Portion_init (sum_list (map (recrystallized c (real j * dt) dt)
                                        (st_portions (after_steps c dt j))))]
      else [])"
  by (simp only: after_steps_Suc loop_body_fields(3) t_after_steps)

lemma length_portions_Suc:
  "length (st_portions (after_steps c dt j)) \<le> length (st_portions (after_steps c dt (Suc j)))"
  "length (st_portions (after_steps c dt (Suc j))) \<le> Suc (length (st_portions (after_steps c dt j)))"
  by (simp_all add: portions_Suc)

lemma length_portions_mono:
  "j \<le> m \<Longrightarrow> length (st_portions (after_steps c dt j)) \<le> length (st_portions (after_steps c dt m))"
proof (induction m)
  case 0
  then show ?case by simp
next
  case (Suc m)
  then show ?case
    using length_portions_Suc(1) [of c dt m] by (cases "j = Suc m") auto
qed

lemma nth_portions_Suc:
  "i < length (st_portions (after_steps c dt j)) \<Longrightarrow>
   st_portions (after_steps c dt (Suc j)) ! i =
     updated c (real j * dt) dt (st_portions (after_steps c dt j) ! i)"
  by (simp add: portions_Suc nth_append)

lemma nth_portions_new:
  assumes "\<not> i < length (st_portions (after_steps c dt j))"
    "i < length (st_portions (after_steps c dt (Suc j)))"
  shows "strain (st_portions (after_steps c dt (Suc j)) ! i) = 0"
    "start_time (st_portions (after_steps c dt (Suc j)) ! i) = - 1"
proof -
  have i: "i = length (st_portions (after_steps c dt j))"
    using assms length_portions_Suc(2) [of c dt j] by simp
  have "st_portions (after_steps c dt (Suc j)) ! i =
      Portion_init (sum_list (map (recrystallized c (real j * dt) dt)
                                  (st_portions (after_steps c dt j))))"
    using assms(2) unfolding portions_Suc i by (simp add: nth_append split: if_splits)
  then show "strain (st_portions (after_steps c dt (Suc j)) ! i) = 0"
    "start_time (st_portions (after_steps c dt (Suc j)) ! i) = - 1"
    by (simp_all add: Portion_init_def)
qed

lemma strain_nth_add:
  "i < length (st_portions (after_steps c dt k)) \<Longrightarrow>
   strain (st_portions (after_steps c dt (k + d)) ! i) =
     strain (st_portions (after_steps c dt k) ! i) + real d * strain_step c"
proof (induction d)
  case 0
  then show ?case by simp
next
  case (Suc d)
  have "i < length (st_portions (after_steps c dt (k + d)))"
    using Suc.prems length_portions_mono [of k "k + d" c dt] by simp
  then have "strain (st_portions (after_steps c dt (Suc (k + d))) ! i) =
      strain (st_portions (after_steps c dt (k + d)) ! i) + strain_step c"
    by (simp add: nth_portions_Suc updated_simps)
  with Suc show ?case
    by (simp add: algebra_simps)
qed

lemma strain_nth_created:
  assumes "i < length (st_portions (after_steps c dt k))"
    "k = 0 \<or> \<not> i < length (st_portions (after_steps c dt (k - 1)))"
  shows "strain (st_portions (after_steps c dt k) ! i) = 0"
proof (cases k)
  case 0
  with assms(1) show ?thesis
    by (simp add: after_steps_0 initial_def Portion_init_def)
next
  case (Suc k')
  with assms show ?thesis
    by (simp add: nth_portions_new)
qed

lemma strain_nth_since:
  assumes "i < length (st_portions (after_steps c dt k))"
    "k = 0 \<or> \<not> i < length (st_portions (after_steps c dt (k - 1)))" "k \<le> m"
  shows "strain (st_portions (after_steps c dt m) ! i) = real (m - k) * strain_step c"
  using strain_nth_add [OF assms(1), of "m - k"] strain_nth_created [OF assms(1,2)] assms(3)
  by simp

lemma nth_ok:
  assumes "0 \<le> dt" "0 \<le> strain_step c" "i < length (st_portions (after_steps c dt j))"
  shows "portion_ok c (real j * dt) (st_portions (after_steps c dt j) ! i)"
  using after_steps_ok [OF assms(1,2)] assms(3) by simp

lemma start_time_range:
  assumes "0 \<le> dt" "0 \<le> strain_step c" "i < length (st_portions (after_steps c dt j))"
  shows "start_time (st_portions (after_steps c dt j) ! i) = - 1 \<or>
     (0 \<le> start_time (st_portions (after_steps c dt j) ! i) \<and>
      start_time (st_portions (after_steps c dt j) ! i) \<le> st_t (after_steps c dt j))"
  using nth_ok [OF assms] by (auto simp: portion_ok_def t_after_steps split: if_splits)

lemma start_time_Suc:
  assumes "0 \<le> dt" "0 \<le> strain_step c" "i < length (st_portions (after_steps c dt j))"
  shows "start_time (st_portions (after_steps c dt (Suc j)) ! i) =
     (if start_time (st_portions (after_steps c dt j) ! i) = - 1
      then (if strain_critical c \<le> strain (st_portions (after_steps c dt j) ! i)
            then st_t (after_steps c dt j) else - 1)
      else start_time (st_portions (after_steps c dt j) ! i))"
  using start_time_range [OF assms] assms(3)
  by (auto simp: nth_portions_Suc updated_simps t_after_steps)

subsection \<open>Runs that do not return, and runs without steps\<close>

lemma while_loop_diverges_aux:
  assumes "while_loop c dt st = Some y"
  shows "\<not> (strain_step c \<le> 0 \<and> st_strain st < strain_max c)"
proof (rule while_loop.raw_induct
    [where P = "\<lambda>c dt st y. \<not> (strain_step c \<le> 0 \<and> st_strain st < strain_max c)", OF _ assms])
  fix f :: "settings \<Rightarrow> real \<Rightarrow> solver \<Rightarrow> solver option" and c dt st y
  assume IH: "\<And>c dt st y. f c dt st = Some y \<Longrightarrow>
      \<not> (strain_step c \<le> 0 \<and> st_strain st < strain_max c)"
    and eq: "(if st_strain st < strain_max c then f c dt (loop_body c dt st) else Some st) = Some y"
  show "\<not> (strain_step c \<le> 0 \<and> st_strain st < strain_max c)"
  proof
    assume a: "strain_step c \<le> 0 \<and> st_strain st < strain_max c"
    then have "f c dt (loop_body c dt st) = Some y"
      using eq by simp
    then have "\<not> (strain_step c \<le> 0 \<and> st_strain (loop_body c dt st) < strain_max c)"
      by (rule IH)
    with a show False
      by (simp add: loop_body_fields)
  qed
qed

lemma while_loop_diverges:
  "strain_step c \<le> 0 \<Longrightarrow> st_strain st < strain_max c \<Longrightarrow> while_loop c dt st = None"
  using while_loop_diverges_aux [of c dt st] by (cases "while_loop c dt st") auto

lemma solve_diverges:
  "rate \<noteq> 0 \<Longrightarrow> strain_step c \<le> 0 \<Longrightarrow> 0 < strain_max c \<Longrightarrow> luton_sellars_solve c rate = None"
  by (simp add: luton_sellars_solve_def while_loop_diverges initial_def)

lemma solve_empty:
  "rate \<noteq> 0 \<Longrightarrow> strain_max c \<le> 0 \<Longrightarrow> luton_sellars_solve c rate = Some (Inr [])"
  by (subst luton_sellars_solve_def, subst while_loop.simps) (simp add: initial_def)

lemma solve_zero_rate: "luton_sellars_solve c 0 = Some (Inl ZeroDivisionError)"
  by (simp add: luton_sellars_solve_def)

subsection \<open>Rows of a run, and the batch\<close>

lemma notebook_simps:
  "strain_critical notebook = 0.5" "strain_step notebook = 0.02" "strain_max notebook = 4"
  by (simp_all add: notebook_def)

lemma solve_not_None: "0 < strain_step c \<Longrightarrow> luton_sellars_solve c rate \<noteq> None"
  by (cases "rate = 0") (simp_all add: solve_zero_rate solve_returns)

lemma solve_error: "luton_sellars_solve c rate = Some (Inl e) \<Longrightarrow> rate = 0 \<and> e = ZeroDivisionError"
  by (cases e) (auto simp: luton_sellars_solve_def split: if_splits option.splits)

lemma solve_all_aborts:
  assumes "0 < strain_step c"
  shows "rate \<in> set rs \<Longrightarrow> luton_sellars_solve c rate = Some (Inl e) \<Longrightarrow>
     solve_all c rs = Some (Inl e)"
proof (induction rs)
  case Nil
  then show ?case by simp
next
  case (Cons r rs')
  have e: "e = ZeroDivisionError"
    using Cons.prems(2) solve_error by blast
  show ?case
  proof (cases "luton_sellars_solve c r")
    case None
    with solve_not_None [OF assms, of r] show ?thesis by simp
  next
    case (Some res)
    show ?thesis
    proof (cases res)
      case (Inl e')
      with Some solve_error [of c r e'] e show ?thesis by simp
    next
      case (Inr frame)
      with Some Cons.prems have "rate \<in> set rs'" by auto
      with Cons.IH Cons.prems(2) have "solve_all c rs' = Some (Inl e)" by simp
      with Some Inr show ?thesis by simp
    qed
  qed
qed

lemma results_aborts:
  "0 < strain_step c \<Longrightarrow> rate \<in> set rs \<Longrightarrow> luton_sellars_solve c rate = Some (Inl e) \<Longrightarrow>
     results c rs = Some (Inl e)"
  by (simp add: results_def solve_all_aborts)

lemma rows_nth:
  assumes "0 < strain_step c" "rate \<noteq> 0" "luton_sellars_solve c rate = Some (Inr rows)"
  shows "length rows = nat \<lceil>strain_max c / strain_step c\<rceil>"
    and "k < length rows \<Longrightarrow> col_t (rows ! k) = real (k + 1) * strain_step c / rate"
    and "k < length rows \<Longrightarrow> col_strain (rows ! k) = real (k + 1) * strain_step c"
proof -
  have rows: "rows = st_results (state_after c rate (nat \<lceil>strain_max c / strain_step c\<rceil>))"
    using assms solve_returns [of c rate] by simp
  show len: "length rows = nat \<lceil>strain_max c / strain_step c\<rceil>"
    by (simp add: rows length_results_after_steps)
  show "k < length rows \<Longrightarrow> col_t (rows ! k) = real (k + 1) * strain_step c / rate"
    unfolding len by (simp add: rows results_after_steps_nth col_t_def)
  show "k < length rows \<Longrightarrow> col_strain (rows ! k) = real (k + 1) * strain_step c"
    unfolding len by (simp add: rows results_after_steps_nth col_strain_def)
qed

lemma rows_cases:
  assumes "rate \<noteq> 0" "luton_sellars_solve c rate = Some (Inr rows)"
  shows "rows = [] \<or> 0 < strain_step c"
proof (cases "0 < strain_step c")
  case True
  then show ?thesis by simp
next
  case False
  show ?thesis
  proof (cases "0 < strain_max c")
    case True
    with False assms solve_diverges [of rate c] show ?thesis by simp
  next
    case False
    with assms solve_empty [of rate c] show ?thesis by simp
  qed
qed

subsection \<open>The first recrystallization and the bounds of the stress\<close>

lemma initial_alone:
  "(\<And>i. i < j \<Longrightarrow> real i * strain_step c < strain_critical c) \<Longrightarrow>
   st_portions (after_steps c dt j) =
     [\<lparr>start_time = - 1, portion = 1, start_portion = 1, strain = real j * strain_step c\<rparr>]"
proof (induction j)
  case 0
  show ?case by (simp add: after_steps_0 initial_def Portion_init_def)
next
  case (Suc j)
  have below: "real j * strain_step c < strain_critical c"
    using Suc.prems [of j] by simp
  have IH: "st_portions (after_steps c dt j) =
     [\<lparr>start_time = - 1, portion = 1, start_portion = 1, strain = real j * strain_step c\<rparr>]"
    using Suc.prems by (intro Suc.IH) simp
  show ?case
    unfolding portions_Suc IH using below
    by (simp add: updated_def recrystallized_def portion_update_def algebra_simps)
qed

lemma first_recrystallization:
  assumes "0 < dt" "\<And>i. i < j \<Longrightarrow> real i * strain_step c < strain_critical c"
    "strain_critical c \<le> real j * strain_step c"
  shows "length (st_portions (after_steps c dt (Suc j))) = 2"
    and "start_time (st_portions (after_steps c dt (Suc j)) ! 0) = real j * dt"
proof -
  have one: "st_portions (after_steps c dt j) =
     [\<lparr>start_time = - 1, portion = 1, start_portion = 1, strain = real j * strain_step c\<rparr>]"
    using assms(2) by (rule initial_alone)
  have "0 < avrami_increment 0 dt"
    using assms(1) by (simp add: avrami_increment_pos)
  then show "length (st_portions (after_steps c dt (Suc j))) = 2"
    "start_time (st_portions (after_steps c dt (Suc j)) ! 0) = real j * dt"
    unfolding portions_Suc one using assms(3)
    by (simp_all add: recrystallized_eq updated_simps)
qed

lemma strain_bounds:
  assumes "0 \<le> strain_step c"
  shows "p \<in> set (st_portions (after_steps c dt j)) \<Longrightarrow>
     0 \<le> strain p \<and> strain p \<le> real j * strain_step c"
proof (induction j arbitrary: p)
  case 0
  then show ?case by (simp add: after_steps_0 initial_def Portion_init_def)
next
  case (Suc j)
  from Suc.prems consider
    q where "q \<in> set (st_portions (after_steps c dt j))" "p = updated c (real j * dt) dt q"
    | x where "p = Portion_init x"
    unfolding portions_Suc by (auto split: if_splits)
  then show ?case
  proof cases
    case 1
    with Suc.IH [of q] assms show ?thesis
      by (simp add: updated_simps algebra_simps)
  next
    case 2
    with assms show ?thesis
      by (simp add: Portion_init_def)
  qed
qed

lemma ludwik_pos: "0 \<le> x \<Longrightarrow> 0 < ludwik x"
  by (simp add: ludwik_def ludvig_k0_def)

lemma ludwik_mono: "0 \<le> a \<Longrightarrow> a \<le> b \<Longrightarrow> ludwik a \<le> ludwik b"
  by (simp add: ludwik_def ludvig_k0_def ludvig_n_def powr_mono2)

lemma ludwik_strict_mono: "0 \<le> a \<Longrightarrow> a < b \<Longrightarrow> ludwik a < ludwik b"
  by (simp add: ludwik_def ludvig_k0_def ludvig_n_def powr_less_mono2)

lemma weighted_le:
  fixes w f :: "'a \<Rightarrow> real"
  shows "(\<And>p. p \<in> set ps \<Longrightarrow> 0 \<le> w p \<and> f p \<le> M) \<Longrightarrow>
     sum_list (map (\<lambda>p. w p * f p) ps) \<le> M * sum_list (map w ps)"
proof (induction ps)
  case Nil
  show ?case by simp
next
  case (Cons p ps)
  have "w p * f p \<le> w p * M"
    using Cons.prems [of p] by (simp add: mult_left_mono)
  moreover have "sum_list (map (\<lambda>p. w p * f p) ps) \<le> M * sum_list (map w ps)"
    using Cons.prems by (intro Cons.IH) simp
  ultimately show ?case
    by (simp add: algebra_simps)
qed

lemma weighted_less:
  fixes w f :: "'a \<Rightarrow> real"
  shows "(\<And>p. p \<in> set ps \<Longrightarrow> 0 < w p \<and> f p \<le> M) \<Longrightarrow> q \<in> set ps \<Longrightarrow> f q < M \<Longrightarrow>
     sum_list (map (\<lambda>p. w p * f p) ps) < M * sum_list (map w ps)"
proof (induction ps)
  case Nil
  then show ?case by simp
next
  case (Cons p ps)
  have rest_le: "sum_list (map (\<lambda>p. w p * f p) ps) \<le> M * sum_list (map w ps)"
    using Cons.prems(1) by (intro weighted_le) (simp add: less_imp_le)
  have head_le: "w p * f p \<le> w p * M"
    using Cons.prems(1) [of p] by (simp add: mult_left_mono)
  show ?case
  proof (cases "f p < M")
    case True
    then have "w p * f p < w p * M"
      using Cons.prems(1) [of p] by simp
    with rest_le show ?thesis
      by (simp add: algebra_simps)
  next
    case False
    with Cons.prems have "q \<in> set ps"
      by auto
    then have "sum_list (map (\<lambda>p. w p * f p) ps) < M * sum_list (map w ps)"
      using Cons.prems by (intro Cons.IH) simp_all
    with head_le show ?thesis
      by (simp add: algebra_simps)
  qed
qed

lemma weighted_pos:
  fixes w f :: "'a \<Rightarrow> real"
  shows "ps \<noteq> [] \<Longrightarrow> (\<And>p. p \<in> set ps \<Longrightarrow> 0 < w p \<and> 0 < f p) \<Longrightarrow>
     0 < sum_list (map (\<lambda>p. w p * f p) ps)"
proof (induction ps)
  case Nil
  then show ?case by simp
next
  case (Cons p ps)
  have "0 < w p * f p"
    using Cons.prems(2) [of p] by simp
  moreover have "0 \<le> sum_list (map (\<lambda>p. w p * f p) ps)"
    using Cons.prems(2) by (intro sum_list_nonneg) (auto simp: less_imp_le)
  ultimately show ?case
    by simp
qed

lemma stress_bounds:
  assumes dt: "0 \<le> dt" and step: "0 \<le> strain_step c"
    and q: "i < length (st_portions (after_steps c dt j))"
      "strain (st_portions (after_steps c dt j) ! i) < real j * strain_step c"
  shows "0 < sum_list (map (\<lambda>p. portion p * flow_stress p) (st_portions (after_steps c dt j)))"
    and "sum_list (map (\<lambda>p. portion p * flow_stress p) (st_portions (after_steps c dt j))) <
      ludwik (real j * strain_step c)"
proof -
  let ?ps = "st_portions (after_steps c dt j)"
  have pos: "0 < portion p" if "p \<in> set ?ps" for p
    using after_steps_ok [OF dt step that] by (rule portion_ok_pos)
  have str: "0 \<le> strain p \<and> strain p \<le> real j * strain_step c" if "p \<in> set ?ps" for p
    using strain_bounds [OF step that] .
  have ne: "?ps \<noteq> []"
    using q(1) by auto
  show "0 < sum_list (map (\<lambda>p. portion p * flow_stress p) ?ps)"
    using ne pos str by (intro weighted_pos) (simp_all add: flow_stress_def ludwik_pos)
  have "sum_list (map (\<lambda>p. portion p * flow_stress p) ?ps) <
      ludwik (real j * strain_step c) * sum_list (map portion ?ps)"
  proof (rule weighted_less)
    show "?ps ! i \<in> set ?ps"
      using q(1) by simp
    show "flow_stress (?ps ! i) < ludwik (real j * strain_step c)"
      using q str [of "?ps ! i"] by (simp add: flow_stress_def ludwik_strict_mono)
  next
    fix p assume "p \<in> set ?ps"
    then show "0 < portion p \<and> flow_stress p \<le> ludwik (real j * strain_step c)"
      using pos str by (simp add: flow_stress_def ludwik_mono)
  qed
  then show "sum_list (map (\<lambda>p. portion p * flow_stress p) ?ps) < ludwik (real j * strain_step c)"
    by (simp add: after_steps_sum_portion [OF dt step])
qed

subsection \<open>The notebook's settings\<close>

lemma notebook_below_critical:
  "i < 25 \<Longrightarrow> real i * strain_step notebook < strain_critical notebook"
  by (simp add: notebook_simps)

lemma notebook_portions_early:
  "j \<le> 25 \<Longrightarrow> st_portions (after_steps notebook dt j) =
     [\<lparr>start_time = - 1, portion = 1, start_portion = 1, strain = real j * strain_step notebook\<rparr>]"
  by (rule initial_alone) (simp add: notebook_below_critical)

lemma notebook_portions_26:
  assumes "0 < dt"
  shows "length (st_portions (after_steps notebook dt 26)) = 2"
    and "start_time (st_portions (after_steps notebook dt 26) ! 0) = 25 * dt"
  using first_recrystallization [of dt 25 notebook, OF assms]
  by (simp_all add: notebook_below_critical) (simp_all add: notebook_simps)

lemma notebook_second_portion:
  assumes dt: "0 < dt" and m: "26 \<le> m"
  shows "1 < length (st_portions (after_steps notebook dt m))"
    and "strain (st_portions (after_steps notebook dt m) ! 1) = real (m - 26) * strain_step notebook"
proof -
  have a: "1 < length (st_portions (after_steps notebook dt 26))"
    using notebook_portions_26(1) [OF dt] by simp
  have b: "\<not> 1 < length (st_portions (after_steps notebook dt (26 - 1)))"
    using notebook_portions_early [of 25 dt] by simp
  show "1 < length (st_portions (after_steps notebook dt m))"
    using a length_portions_mono [OF m, of notebook dt] by simp
  show "strain (st_portions (after_steps notebook dt m) ! 1) = real (m - 26) * strain_step notebook"
    using strain_nth_since [OF a _ m] b by simp
qed

section \<open>Double precision: rounding\<close>

lemma floor_log2:
  assumes "2 powi e \<le> \<bar>x\<bar>" "\<bar>x\<bar> < 2 powi (e + 1)"
  shows "\<lfloor>log 2 \<bar>x\<bar>\<rfloor> = e"
proof -
  have pos: "0 < \<bar>x\<bar>"
    using assms(1) by (smt (verit) zero_less_power_int)
  have a: "log 2 (2 powi e) \<le> log 2 \<bar>x\<bar>"
    using assms(1) pos by (simp add: log_le_cancel_iff)
  have b: "log 2 \<bar>x\<bar> < log 2 (2 powi (e + 1))"
    using assms(2) pos by (simp add: log_less_cancel_iff)
  have c: "log 2 (2 powi k) = of_int k" for k :: int
    by (simp add: powr_real_of_int' flip: powr_real_of_int')
  show ?thesis
    using a b unfolding c by linarith
qed

lemmas powi_eval = power_int_numeral power_int_numeral_neg_numeral

lemma log2_powi: "log 2 (2 powi k) = of_int k"
  by (simp add: powr_real_of_int' flip: powr_real_of_int')

lemma rne_of_int: "rne (of_int m) = m"
  by (simp add: rne_def)

lemma ulp_exp_eq:
  assumes "2 powi e \<le> \<bar>x\<bar>" "\<bar>x\<bar> < 2 powi (e + 1)"
  shows "ulp_exp x = max e (- 1022) - 52"
  using floor_log2 [OF assms] by (simp add: ulp_exp_def)

lemma rnd_eq:
  assumes "2 powi e \<le> \<bar>x\<bar>" "\<bar>x\<bar> < 2 powi (e + 1)" "- 1022 \<le> e"
  shows "rnd x = (let y = of_int (rne (x / 2 powi (e - 52))) * 2 powi (e - 52)
           in if 2 powi 1024 \<le> \<bar>y\<bar> then (if 0 < x then PInf else NInf) else Finite y)"
proof -
  have "x \<noteq> 0"
    using assms(1) by (smt (verit) abs_zero zero_less_power_int)
  moreover have "ulp_exp x = e - 52"
    using ulp_exp_eq [OF assms(1,2)] assms(3) by simp
  ultimately show ?thesis
    by (simp add: rnd_def del: powi_eval)
qed

lemma rnd_representable:
  assumes m: "2 ^ 52 \<le> \<bar>m\<bar>" "\<bar>m\<bar> < 2 ^ 53" and k: "- 1074 \<le> k" "k \<le> 971"
  shows "rnd (of_int m * 2 powi k) = Finite (of_int m * 2 powi k)"
proof -
  let ?x = "of_int m * 2 powi k :: real"
  have pk: "(0::real) < 2 powi k"
    by simp
  have abs: "\<bar>?x\<bar> = of_int \<bar>m\<bar> * 2 powi k"
    by (simp add: abs_mult)
  have lo: "2 powi (52 + k) \<le> \<bar>?x\<bar>"
  proof -
    have "(2::real) ^ 52 \<le> of_int \<bar>m\<bar>"
      using m(1) by (metis of_int_le_iff of_int_numeral of_int_power)
    then have "(2::real) ^ 52 * 2 powi k \<le> of_int \<bar>m\<bar> * 2 powi k"
      using pk by (simp only: mult_le_cancel_right_pos)
    then show ?thesis
      unfolding abs by (simp add: power_int_add)
  qed
  have hi: "\<bar>?x\<bar> < 2 powi (52 + k + 1)"
  proof -
    have "of_int \<bar>m\<bar> < (2::real) ^ 53"
      using m(2) by (metis of_int_less_iff of_int_numeral of_int_power)
    then have "of_int \<bar>m\<bar> * 2 powi k < (2::real) ^ 53 * 2 powi k"
      using pk by (simp only: mult_less_cancel_right_pos)
    then show ?thesis
      unfolding abs by (simp add: power_int_add)
  qed
  have small: "\<not> 2 powi 1024 \<le> \<bar>?x\<bar>"
  proof -
    have "(2::real) powi (52 + k + 1) \<le> 2 powi 1024"
      using k(2) by (intro power_int_increasing) simp_all
    with hi show ?thesis by linarith
  qed
  have "rnd ?x = (let y = of_int (rne (?x / 2 powi (52 + k - 52))) * 2 powi (52 + k - 52)
           in if 2 powi 1024 \<le> \<bar>y\<bar> then (if 0 < ?x then PInf else NInf) else Finite y)"
    using lo hi k(1) by (intro rnd_eq) simp_all
  moreover have "?x / 2 powi (52 + k - 52) = of_int m"
    by simp
  moreover have "52 + k - 52 = k"
    by simp
  ultimately show ?thesis
    using small by (simp only: rne_of_int Let_def if_False)
qed

lemma rnd_pow2:
  assumes "- 1022 \<le> j" "j \<le> 1023"
  shows "rnd (2 powi j) = Finite (2 powi j)"
proof -
  have "rnd (of_int (2 ^ 52) * 2 powi (j - 52)) = Finite (of_int (2 ^ 52) * 2 powi (j - 52))"
    using assms by (intro rnd_representable) simp_all
  moreover have "of_int (2 ^ 52) * 2 powi (j - 52) = (2::real) powi j"
    by (simp add: power_int_diff)
  ultimately show ?thesis
    by (simp only:)
qed

lemma rnd_pow2_overflow:
  assumes "1024 \<le> j"
  shows "rnd (2 powi j) = PInf"
proof -
  have "rnd (2 powi j) = (let y = of_int (rne (2 powi j / 2 powi (j - 52))) * 2 powi (j - 52)
           in if 2 powi 1024 \<le> \<bar>y\<bar> then (if 0 < (2::real) powi j then PInf else NInf) else Finite y)"
    using assms by (intro rnd_eq) (simp_all add: power_int_add)
  moreover have "(2::real) powi j / 2 powi (j - 52) = of_int (2 ^ 52)"
    by (simp add: power_int_diff)
  moreover have "of_int (2 ^ 52) * 2 powi (j - 52) = (2::real) powi j"
    by (simp add: power_int_diff)
  moreover have "(2::real) powi 1024 \<le> \<bar>2 powi j\<bar>"
    using power_int_increasing [of 1024 j "2::real"] assms by (simp del: powi_eval)
  moreover have "(0::real) < 2 powi j"
    by simp
  ultimately show ?thesis
    by (simp only: rne_of_int Let_def if_True)
qed

lemma rne_small: "0 \<le> z \<Longrightarrow> z < 1 / 2 \<Longrightarrow> rne z = 0"
proof -
  assume "0 \<le> z" "z < 1 / 2"
  then have "\<lfloor>z\<rfloor> = 0"
    by (simp add: floor_eq_iff)
  with \<open>z < 1 / 2\<close> show ?thesis
    by (simp add: rne_def)
qed

lemma powi_pred: "(2::real) powi (u - 1) = 2 powi u / 2"
  by (simp add: power_int_diff)

lemma rnd_tiny:
  assumes "0 < x" "x < 2 powi k" "k \<le> - 1075"
  shows "rnd x = Finite 0"
proof -
  have "log 2 x < log 2 (2 powi k)"
    using assms by (simp add: log_less_cancel_iff)
  then have "log 2 x < of_int k"
    by (simp only: log2_powi)
  then have "\<lfloor>log 2 \<bar>x\<bar>\<rfloor> < - 1022"
    using assms(1,3) by (simp add: floor_less_iff)
  then have u: "ulp_exp x = - 1074"
    by (simp add: ulp_exp_def)
  have "(2::real) powi k \<le> 2 powi (- 1074 - 1)"
    using assms(3) by (intro power_int_increasing) simp_all
  also have "(2::real) powi (- 1074 - 1) = 2 powi (- 1074) / 2"
    by (rule powi_pred)
  finally have "x < 2 powi (- 1074) / 2"
    using assms(2) by linarith
  moreover have p: "(0::real) < 2 powi (- 1074)"
    by (simp only: zero_less_power_int zero_less_numeral)
  ultimately have "x / 2 powi (- 1074) < 1 / 2"
    by (simp only: pos_divide_less_eq)
  moreover have "0 \<le> x / 2 powi (- 1074)"
    using assms(1) p by (simp del: powi_eval)
  ultimately have "rne (x / 2 powi (- 1074)) = 0"
    by (intro rne_small)
  moreover have "\<not> (2::real) powi 1024 \<le> 0"
    by (simp only: not_le zero_less_power_int zero_less_numeral)
  ultimately show ?thesis
    using assms(1) by (simp add: rnd_def u del: powi_eval)
qed

lemma rnd_0: "rnd 0 = Finite 0"
  by (simp add: rnd_def)

lemma rnd_1: "rnd 1 = Finite 1"
  using rnd_pow2 [of 0] by simp

lemma rne_eq:
  assumes "of_int m - 1 / 2 < x" "x < of_int m + 1 / 2"
  shows "rne x = m"
proof (cases "of_int m \<le> x")
  case True
  with assms have "\<lfloor>x\<rfloor> = m"
    by (simp add: floor_eq_iff)
  with assms show ?thesis
    by (simp add: rne_def)
next
  case False
  with assms have "\<lfloor>x\<rfloor> = m - 1"
    by (simp add: floor_eq_iff)
  with assms False show ?thesis
    by (simp add: rne_def)
qed

lemma avrami_k_d_eq: "avrami_k_d = Finite (7205759403792794 * 2 powi (- 55))"
proof -
  have "rnd (2 / 10) =
      (let y = of_int (rne (2 / 10 / 2 powi (- 3 - 52))) * 2 powi (- 3 - 52)
       in if 2 powi 1024 \<le> \<bar>y\<bar> then (if (0::real) < 2 / 10 then PInf else NInf) else Finite y)"
    by (rule rnd_eq) simp_all
  moreover have "rne (2 / 10 / 2 powi (- 3 - 52)) = 7205759403792794"
    by (rule rne_eq) simp_all
  moreover have "\<not> (2::real) powi 1024 \<le> \<bar>of_int 7205759403792794 * 2 powi (- 3 - 52)\<bar>"
    by simp
  ultimately show ?thesis
    by (simp add: avrami_k_d_def Let_def del: powi_eval)
qed

section \<open>Double precision: runs at extreme inputs\<close>

lemma powi_less: "(2::real) powi m < 2 powi n \<longleftrightarrow> m < n"
  by (metis power_int_strict_increasing linorder_neqE_linordered_idom less_irrefl less_trans one_less_numeral_iff semiring_norm(76))

lemma powi_double: "(2::real) powi j + 2 powi j = 2 powi (j + 1)"
  by (simp add: power_int_add)

lemma powi_square: "((2::real) powi j)\<^sup>2 = 2 powi (2 * j)"
  by (simp add: power2_eq_square flip: power_int_add)

lemma float_pow_2: "float_pow (Finite a) 2 =
     (case rnd (a\<^sup>2) of PInf \<Rightarrow> Inl OverflowError | NInf \<Rightarrow> Inl OverflowError | y \<Rightarrow> Inr y)"
  "float_pow PInf 2 = Inr PInf" "float_pow NaN 2 = Inr NaN"
  by (simp_all add: numeral_2_eq_2)

lemma exp_le_powi:
  assumes "x \<le> - real n"
  shows "exp x \<le> 2 powi (- int n)"
proof -
  have "(2::real) \<le> exp 1"
    using exp_ge_add_one_self [of 1] by simp
  then have "(2::real) ^ n \<le> exp 1 ^ n"
    by (intro power_mono) simp_all
  also have "exp 1 ^ n = exp (real n)"
    by (simp add: exp_of_nat_mult [symmetric])
  finally have "inverse (exp (real n)) \<le> inverse ((2::real) ^ n)"
    by (intro le_imp_inverse_le) simp_all
  then have "exp (- real n) \<le> 2 powi (- int n)"
    by (simp add: exp_minus power_int_minus)
  moreover have "exp x \<le> exp (- real n)"
    using assms by simp
  ultimately show ?thesis
    by linarith
qed

lemma np_exp_underflow:
  assumes "x \<le> - 1076"
  shows "np_exp (Finite x) = Finite 0"
proof -
  have "exp x \<le> 2 powi (- int 1076)"
    using assms by (intro exp_le_powi) simp
  also have "(2::real) powi (- int 1076) < 2 powi (- 1075)"
    by (simp only: powi_less)
  finally have "exp x < 2 powi (- 1075)" .
  then have "rnd (exp x) = Finite 0"
    by (intro rnd_tiny [where k = "- 1075"]) simp_all
  then show ?thesis
    by simp
qed

lemma dadd_NaN [simp]: "dadd a NaN = NaN"
  by (cases a) simp_all

lemma dmul_NaN [simp]: "dmul a NaN = NaN"
  by (cases a) simp_all

lemma dsub_simps:
  "dsub (Finite a) (Finite b) = rnd (a - b)"
  "dsub PInf (Finite b) = PInf"
  "dsub PInf PInf = NaN"
  "dsub x NaN = NaN"
  "dsub NaN y = NaN"
  by (simp_all add: dsub_def)

lemma avrami_k_d_pos: "\<exists>k. avrami_k_d = Finite k \<and> 0 < k"
proof (intro exI conjI)
  show "avrami_k_d = Finite (7205759403792794 * 2 powi (- 55))"
    by (rule avrami_k_d_eq)
  show "(0::real) < 7205759403792794 * 2 powi (- 55)"
    by simp
qed

lemma dmul_neg_k:
  "dmul (dneg avrami_k_d) PInf = NInf"
  "dmul (dneg avrami_k_d) (Finite 0) = Finite 0"
proof -
  obtain k where k: "avrami_k_d = Finite k" "0 < k"
    using avrami_k_d_pos by blast
  show "dmul (dneg avrami_k_d) PInf = NInf"
    unfolding k(1) using k(2) by simp
  show "dmul (dneg avrami_k_d) (Finite 0) = Finite 0"
    unfolding k(1) by (simp add: rnd_0)
qed

lemma avrami_d_0: "avrami_d (Finite 0) = Inr (Finite 0)"
  by (simp add: avrami_d_def avrami_n_def float_pow_2 rnd_0 rnd_1 dmul_neg_k dsub_simps)

lemma avrami_d_PInf: "avrami_d PInf = Inr (Finite 1)"
  by (simp add: avrami_d_def avrami_n_def float_pow_2 rnd_1 dmul_neg_k dsub_simps)

lemma avrami_d_NaN: "avrami_d NaN = Inr NaN"
  by (simp add: avrami_d_def avrami_n_def float_pow_2 dsub_simps)

lemma avrami_d_overflow: "512 \<le> j \<Longrightarrow> j \<le> 1023 \<Longrightarrow> avrami_d (Finite (2 powi j)) = Inl OverflowError"
  by (simp add: avrami_d_def avrami_n_def float_pow_2 powi_square rnd_pow2_overflow del: powi_eval)

lemma avrami_d_saturated: "avrami_d (Finite (2 powi 100)) = Inr (Finite 1)"
proof -
  have pow: "float_pow (Finite (2 powi 100)) avrami_n = Inr (Finite (2 powi 200))"
    by (simp add: avrami_n_def float_pow_2 powi_square rnd_pow2 del: powi_eval)
  have "(2::real) powi (- 55) * 2 powi 200 = 2 powi 145"
    by (simp flip: power_int_add del: powi_eval)
  then have "- (7205759403792794 * 2 powi (- 55)) * 2 powi 200 =
      of_int (- 7205759403792794) * (2::real) powi 145"
    by (simp del: powi_eval)
  moreover have "rnd (of_int (- 7205759403792794) * 2 powi 145) =
      Finite (of_int (- 7205759403792794) * 2 powi 145)"
    by (rule rnd_representable) simp_all
  ultimately have "rnd (- (7205759403792794 * 2 powi (- 55)) * 2 powi 200) =
      Finite (of_int (- 7205759403792794) * 2 powi 145)"
    by (simp only:)
  then have mul: "dmul (dneg avrami_k_d) (Finite (2 powi 200)) =
      Finite (of_int (- 7205759403792794) * 2 powi 145)"
    by (simp only: avrami_k_d_eq dneg.simps dmul.simps)
  have "of_int (- 7205759403792794) * (2::real) powi 145 \<le> - 1076"
    by simp
  then have ex: "np_exp (Finite (of_int (- 7205759403792794) * 2 powi 145)) = Finite 0"
    by (rule np_exp_underflow)
  show ?thesis
    unfolding avrami_d_def pow by (simp only: mul ex sum.case dsub_simps) (simp add: rnd_1)
qed

lemma powi_div: "(2::real) powi a / 2 powi b = 2 powi (a - b)"
  by (simp add: power_int_diff)

lemma powi_le: "(2::real) powi m \<le> 2 powi n \<longleftrightarrow> m \<le> n"
  using powi_less [of n m] by (auto simp: not_less [symmetric])

lemmas eval_d = rnd_0 rnd_1 rnd_pow2 rnd_pow2_overflow dsub_simps avrami_d_0 avrami_d_PInf avrami_d_NaN
  powi_less powi_le powi_double powi_div

lemma inf_run_pass1:
  "loop_body_d \<lparr>strain_critical_d = Finite 0, strain_step_d = Finite (2 powi 1000),
                 strain_max_d = Finite (2 powi 1001)\<rparr> PInf initial_d =
   Inr \<lparr>d_strain = Finite (2 powi 1000), d_t = PInf,
        d_portions =
          [\<lparr>start_time_d = Finite 0, portion_d = Finite 0, start_portion_d = Finite 1,
             strain_d = Finite (2 powi 1000)\<rparr>,
           \<lparr>start_time_d = Finite (- 1), portion_d = Finite 1, start_portion_d = Finite 1,
             strain_d = Finite 0\<rparr>],
        d_results =
          [(PInf, Finite (2 powi 1000),
            sum_stress_d
              [\<lparr>start_time_d = Finite 0, portion_d = Finite 0, start_portion_d = Finite 1,
                 strain_d = Finite (2 powi 1000)\<rparr>,
               \<lparr>start_time_d = Finite (- 1), portion_d = Finite 1, start_portion_d = Finite 1,
                 strain_d = Finite 0\<rparr>])]\<rparr>"
  by (simp add: loop_body_d_def initial_d_def Portion_init_d_def portion_update_d_def
      avrami_increment_d_def Let_def eval_d del: powi_eval)

lemma inf_run_pass2:
  "loop_body_d \<lparr>strain_critical_d = Finite 0, strain_step_d = Finite (2 powi 1000),
                 strain_max_d = Finite (2 powi 1001)\<rparr> PInf
     \<lparr>d_strain = Finite (2 powi 1000), d_t = PInf,
        d_portions =
          [\<lparr>start_time_d = Finite 0, portion_d = Finite 0, start_portion_d = Finite 1,
             strain_d = Finite (2 powi 1000)\<rparr>,
           \<lparr>start_time_d = Finite (- 1), portion_d = Finite 1, start_portion_d = Finite 1,
             strain_d = Finite 0\<rparr>],
        d_results = rows\<rparr> =
   Inr \<lparr>d_strain = Finite (2 powi 1001), d_t = PInf,
        d_portions =
          [\<lparr>start_time_d = Finite 0, portion_d = Finite 0, start_portion_d = Finite 1,
             strain_d = Finite (2 powi 1001)\<rparr>,
           \<lparr>start_time_d = PInf, portion_d = NaN, start_portion_d = Finite 1,
             strain_d = Finite (2 powi 1000)\<rparr>],
        d_results = rows @
          [(PInf, Finite (2 powi 1001),
            sum_stress_d
              [\<lparr>start_time_d = Finite 0, portion_d = Finite 0, start_portion_d = Finite 1,
                 strain_d = Finite (2 powi 1001)\<rparr>,
               \<lparr>start_time_d = PInf, portion_d = NaN, start_portion_d = Finite 1,
                 strain_d = Finite (2 powi 1000)\<rparr>])]\<rparr>"
  by (simp add: loop_body_d_def Portion_init_d_def portion_update_d_def
      avrami_increment_d_def Let_def eval_d del: powi_eval)

lemma inf_run_time_step:
  "float_div (Finite (2 powi 1000)) (Finite (2 powi (- 100))) = Inr PInf"
  by (simp add: eval_d del: powi_eval)

lemma inf_run_loop:
  "while_loop_d \<lparr>strain_critical_d = Finite 0, strain_step_d = Finite (2 powi 1000),
                  strain_max_d = Finite (2 powi 1001)\<rparr> PInf initial_d =
   Some (Inr \<lparr>d_strain = Finite (2 powi 1001), d_t = PInf,
        d_portions =
          [\<lparr>start_time_d = Finite 0, portion_d = Finite 0, start_portion_d = Finite 1,
             strain_d = Finite (2 powi 1001)\<rparr>,
           \<lparr>start_time_d = PInf, portion_d = NaN, start_portion_d = Finite 1,
             strain_d = Finite (2 powi 1000)\<rparr>],
        d_results =
          [(PInf, Finite (2 powi 1000),
            sum_stress_d
              [\<lparr>start_time_d = Finite 0, portion_d = Finite 0, start_portion_d = Finite 1,
                 strain_d = Finite (2 powi 1000)\<rparr>,
               \<lparr>start_time_d = Finite (- 1), portion_d = Finite 1, start_portion_d = Finite 1,
                 strain_d = Finite 0\<rparr>]),
           (PInf, Finite (2 powi 1001),
            sum_stress_d
              [\<lparr>start_time_d = Finite 0, portion_d = Finite 0, start_portion_d = Finite 1,
                 strain_d = Finite (2 powi 1001)\<rparr>,
               \<lparr>start_time_d = PInf, portion_d = NaN, start_portion_d = Finite 1,
                 strain_d = Finite (2 powi 1000)\<rparr>])]\<rparr>)"
  apply (subst while_loop_d.simps)
  apply (simp add: initial_d_def [symmetric] inf_run_pass1 del: powi_eval)
  apply (simp add: initial_d_def del: powi_eval)
  apply (subst while_loop_d.simps)
  apply (simp add: inf_run_pass2 powi_less del: powi_eval)
  apply (subst while_loop_d.simps)
  apply (simp add: powi_less del: powi_eval)
  done

lemma rnd_pow2_underflow: "j \<le> - 1076 \<Longrightarrow> rnd (2 powi j) = Finite 0"
  by (rule rnd_tiny [where k = "j + 1"]) (simp_all add: powi_less del: powi_eval)

lemma powi_inverse: "1 / (2::real) powi b = 2 powi (- b)"
  by (simp add: power_int_minus field_simps)

lemma tiny_run_time_step:
  "float_div (Finite (2 powi (- 1000))) (Finite (2 powi 100)) = Inr (Finite 0)"
  "float_div (Finite (2 powi (- 1000))) (Finite (2 powi 200)) = Inr (Finite 0)"
  by (simp_all add: eval_d rnd_pow2_underflow del: powi_eval)

lemma tiny_run_pass:
  "loop_body_d \<lparr>strain_critical_d = Finite 1, strain_step_d = Finite (2 powi (- 1000)),
                 strain_max_d = Finite (2 powi (- 1000))\<rparr> (Finite 0) initial_d =
   Inr \<lparr>d_strain = Finite (2 powi (- 1000)), d_t = Finite 0,
        d_portions =
          [\<lparr>start_time_d = Finite (- 1), portion_d = Finite 1, start_portion_d = Finite 1,
             strain_d = Finite (2 powi (- 1000))\<rparr>],
        d_results =
          [(Finite 0, Finite (2 powi (- 1000)),
            sum_stress_d
              [\<lparr>start_time_d = Finite (- 1), portion_d = Finite 1, start_portion_d = Finite 1,
                 strain_d = Finite (2 powi (- 1000))\<rparr>])]\<rparr>"
  by (simp add: loop_body_d_def initial_d_def Portion_init_d_def portion_update_d_def
      Let_def eval_d del: powi_eval)

lemma tiny_run_loop:
  "while_loop_d \<lparr>strain_critical_d = Finite 1, strain_step_d = Finite (2 powi (- 1000)),
                  strain_max_d = Finite (2 powi (- 1000))\<rparr> (Finite 0) initial_d =
   Some (Inr \<lparr>d_strain = Finite (2 powi (- 1000)), d_t = Finite 0,
        d_portions =
          [\<lparr>start_time_d = Finite (- 1), portion_d = Finite 1, start_portion_d = Finite 1,
             strain_d = Finite (2 powi (- 1000))\<rparr>],
        d_results =
          [(Finite 0, Finite (2 powi (- 1000)),
            sum_stress_d
              [\<lparr>start_time_d = Finite (- 1), portion_d = Finite 1, start_portion_d = Finite 1,
                 strain_d = Finite (2 powi (- 1000))\<rparr>])]\<rparr>)"
  apply (subst while_loop_d.simps)
  apply (simp add: tiny_run_pass del: powi_eval)
  apply (simp add: initial_d_def del: powi_eval)
  apply (subst while_loop_d.simps)
  apply (simp del: powi_eval)
  done

lemma overflow_run_time_step:
  "float_div (Finite 1) (Finite (2 powi (- 600))) = Inr (Finite (2 powi 600))"
  by (simp add: eval_d powi_inverse del: powi_eval)

lemma overflow_run_pass:
  "loop_body_d \<lparr>strain_critical_d = Finite 0, strain_step_d = Finite 1,
                 strain_max_d = Finite 4\<rparr> (Finite (2 powi 600)) initial_d = Inl OverflowError"
  by (simp add: loop_body_d_def initial_d_def Portion_init_d_def portion_update_d_def
      avrami_increment_d_def Let_def eval_d avrami_d_overflow del: powi_eval)

lemma overflow_run_loop:
  "while_loop_d \<lparr>strain_critical_d = Finite 0, strain_step_d = Finite 1,
     strain_max_d = Finite 4\<rparr> (Finite (2 powi 600)) initial_d = Some (Inl OverflowError)"
  apply (subst while_loop_d.simps)
  apply (simp add: overflow_run_pass del: powi_eval)
  apply (simp add: initial_d_def)
  done

lemma overflow_run:
  "luton_sellars_solve_d \<lparr>strain_critical_d = Finite 0, strain_step_d = Finite 1,
     strain_max_d = Finite 4\<rparr> (Finite (2 powi (- 600))) = Some (Inl OverflowError)"
  by (simp add: luton_sellars_solve_d_def eval_d powi_inverse overflow_run_loop del: powi_eval)

lemma tiny_run:
  "luton_sellars_solve_d \<lparr>strain_critical_d = Finite 1, strain_step_d = Finite (2 powi (- 1000)),
     strain_max_d = Finite (2 powi (- 1000))\<rparr> (Finite (2 powi 100)) =
   Some (Inr [(Finite 0, Finite (2 powi (- 1000)),
            sum_stress_d
              [\<lparr>start_time_d = Finite (- 1), portion_d = Finite 1, start_portion_d = Finite 1,
                 strain_d = Finite (2 powi (- 1000))\<rparr>])])"
  "luton_sellars_solve_d \<lparr>strain_critical_d = Finite 1, strain_step_d = Finite (2 powi (- 1000)),
     strain_max_d = Finite (2 powi (- 1000))\<rparr> (Finite (2 powi 200)) =
   Some (Inr [(Finite 0, Finite (2 powi (- 1000)),
            sum_stress_d
              [\<lparr>start_time_d = Finite (- 1), portion_d = Finite 1, start_portion_d = Finite 1,
                 strain_d = Finite (2 powi (- 1000))\<rparr>])])"
  by (simp_all add: luton_sellars_solve_d_def eval_d rnd_pow2_underflow tiny_run_loop del: powi_eval)
















section \<open>Further facts for the properties\<close>


lemma notebook_returns:
  "rate \<noteq> 0 \<Longrightarrow>
   luton_sellars_solve notebook rate = Some (Inr (st_results (state_after notebook rate 200)))"
  using solve_returns [of notebook rate] by (simp add: notebook_simps)



lemma returned_rows:
  assumes "0 < strain_step c" "rate \<noteq> 0" "luton_sellars_solve c rate = Some (Inr rows)"
  shows "rows = st_results (state_after c rate (length rows))"
  using assms solve_returns [of c rate] by (auto simp: length_results_after_steps)



lemma solve_all_d_first_failure:
  assumes "luton_sellars_solve_d c rate = Some (Inl e)"
  shows "(\<And>r. r \<in> set pre \<Longrightarrow> \<exists>rows. luton_sellars_solve_d c r = Some (Inr rows)) \<Longrightarrow>
     solve_all_d c (pre @ rate # post) = Some (Inl e)"
proof (induction pre)
  case Nil
  show ?case by (simp add: assms)
next
  case (Cons r pre)
  obtain rows where "luton_sellars_solve_d c r = Some (Inr rows)"
    using Cons.prems [of r] by auto
  moreover have "solve_all_d c (pre @ rate # post) = Some (Inl e)"
    using Cons.prems by (intro Cons.IH) simp
  ultimately show ?case
    by simp
qed

lemma results_d_first_failure:
  assumes "\<And>r. r \<in> set pre \<Longrightarrow> \<exists>rows. luton_sellars_solve_d c r = Some (Inr rows)"
    "luton_sellars_solve_d c rate = Some (Inl e)"
  shows "results_d c (pre @ rate # post) = Some (Inl e)"
  using solve_all_d_first_failure [OF assms(2) assms(1)] by (simp add: results_d_def)

lemma solve_d_zero_rate: "luton_sellars_solve_d c (Finite 0) = Some (Inl ZeroDivisionError)"
  by (cases "strain_step_d c") (simp_all add: luton_sellars_solve_d_def)

section \<open>Properties\<close>







text \<open>
  C3 (configuration errors), as amended. The solver checks no setting. A zero rate
  raises \<^verbatim>\<open>ZeroDivisionError\<close> in \<^verbatim>\<open>strain_step / rate\<close>, before the loop; with
  \<open>strain_max \<le> 0\<close> and a nonzero rate no pass is made and the empty result is
  returned, without an error; with \<open>strain_step \<le> 0 < strain_max\<close> and a nonzero rate
  the loop is entered and the run returns no result. The claim as written fails for
  \<open>strain_max = 0\<close> with the notebook's other settings at rate 0.5: the run returns
  the empty result and reports nothing.
\<close>

theorem no_configuration_check:
  "(rate = 0 \<longrightarrow> luton_sellars_solve c rate = Some (Inl ZeroDivisionError)) \<and>
   (rate \<noteq> 0 \<and> strain_max c \<le> 0 \<longrightarrow> luton_sellars_solve c rate = Some (Inr [])) \<and>
   (rate \<noteq> 0 \<and> 0 < strain_max c \<and> strain_step c \<le> 0 \<longrightarrow>
      st_strain initial < strain_max c \<and>
      (\<forall>rows. luton_sellars_solve c rate \<noteq> Some (Inr rows)))"
  by (simp add: solve_zero_rate solve_empty solve_diverges initial_def)

theorem no_configuration_check_witness:
  "luton_sellars_solve notebook 0 = Some (Inl ZeroDivisionError) \<and>
   luton_sellars_solve (notebook\<lparr>strain_max := - 1\<rparr>) 0.5 = Some (Inr []) \<and>
   luton_sellars_solve (notebook\<lparr>strain_step := 0\<rparr>) 0.5 \<noteq> Some (Inr [])"
  using no_configuration_check [of 0 notebook]
    no_configuration_check [of "0.5" "notebook\<lparr>strain_max := - 1\<rparr>"]
    no_configuration_check [of "0.5" "notebook\<lparr>strain_step := 0\<rparr>"]
  by (simp add: notebook_simps)

theorem configuration_error_counterexample:
  "strain_max \<lparr>strain_critical = 0.5, strain_step = 0.02, strain_max = 0\<rparr> \<le> 0 \<and>
   luton_sellars_solve \<lparr>strain_critical = 0.5, strain_step = 0.02, strain_max = 0\<rparr> 0.5 =
     Some (Inr [])"
  by (simp add: solve_empty)

text \<open>
  C4 (failures in a batch), as amended. The batch has no handler. In double
  precision, where a run fails with \<^verbatim>\<open>ZeroDivisionError\<close> or \<^verbatim>\<open>OverflowError\<close>: when
  the runs of the rates before some rate of the list return rows and the run of that
  rate fails, the batch fails with that error; it returns no rows, neither those of
  the runs before the failing one nor those of the rates after it. The claim as
  written fails for the rates \<open>[0.5, 0]\<close>: the run at 0.5 returns its rows, the run
  at 0 raises, and the batch ends with that error.
\<close>

theorem results_abort_on_failure:
  assumes "\<forall>r \<in> set pre. \<exists>rows. luton_sellars_solve_d c r = Some (Inr rows)"
    "luton_sellars_solve_d c rate = Some (Inl e)"
  shows "results_d c (pre @ rate # post) = Some (Inl e)"
  using assms by (intro results_d_first_failure) auto

theorem results_abort_on_failure_witness:
  "luton_sellars_solve_d \<lparr>strain_critical_d = Finite 0, strain_step_d = Finite 1,
     strain_max_d = Finite 4\<rparr> (Finite (2 powi (- 600))) = Some (Inl OverflowError) \<and>
   results_d \<lparr>strain_critical_d = Finite 0, strain_step_d = Finite 1,
     strain_max_d = Finite 4\<rparr> ([] @ Finite (2 powi (- 600)) # [Finite 0]) =
     Some (Inl OverflowError) \<and>
   luton_sellars_solve_d \<lparr>strain_critical_d = Finite 1, strain_step_d = Finite (2 powi (- 1000)),
     strain_max_d = Finite (2 powi (- 1000))\<rparr> (Finite 0) = Some (Inl ZeroDivisionError) \<and>
   results_d \<lparr>strain_critical_d = Finite 1, strain_step_d = Finite (2 powi (- 1000)),
     strain_max_d = Finite (2 powi (- 1000))\<rparr>
     ([Finite (2 powi 100)] @ Finite 0 # [Finite (2 powi 200)]) = Some (Inl ZeroDivisionError)"
proof -
  let ?c = "\<lparr>strain_critical_d = Finite 0, strain_step_d = Finite 1,
     strain_max_d = Finite 4\<rparr>"
  let ?d = "\<lparr>strain_critical_d = Finite 1, strain_step_d = Finite (2 powi (- 1000)),
     strain_max_d = Finite (2 powi (- 1000))\<rparr>"
  have a: "\<forall>r \<in> set []. \<exists>rows. luton_sellars_solve_d ?c r = Some (Inr rows)"
    by simp
  have b: "\<forall>r \<in> set [Finite (2 powi 100)]. \<exists>rows. luton_sellars_solve_d ?d r = Some (Inr rows)"
    by (simp add: tiny_run(1) del: powi_eval)
  have z: "luton_sellars_solve_d ?d (Finite 0) = Some (Inl ZeroDivisionError)"
    by (rule solve_d_zero_rate)
  show ?thesis
    using results_abort_on_failure [OF a overflow_run, of "[Finite 0]"]
      results_abort_on_failure [OF b z, of "[Finite (2 powi 200)]"] overflow_run z
    by blast
qed

theorem results_isolation_counterexample:
  "luton_sellars_solve notebook 0.5 = Some (Inr (st_results (state_after notebook 0.5 200))) \<and>
   results notebook [0.5, 0] = Some (Inl ZeroDivisionError)"
proof
  show "luton_sellars_solve notebook 0.5 = Some (Inr (st_results (state_after notebook 0.5 200)))"
    using solve_returns [of notebook "0.5"] by (simp add: notebook_simps)
  show "results notebook [0.5, 0] = Some (Inl ZeroDivisionError)"
    by (rule results_aborts [of notebook 0]) (simp_all add: notebook_simps solve_zero_rate)
qed

text \<open>
  C5 (start time of a portion), as amended. For a positive \<open>strain_step\<close> and rate,
  with \<open>t\<close> the solver's time before pass \<open>j + 1\<close>: the start time of a portion is
  either the unset value \<open>-1\<close> or lies between 0 and \<open>t\<close>; an unset start time stays
  unset in a pass that finds the portion's strain below the critical strain, and is
  set to \<open>t\<close> in a pass that finds it at or above the critical strain; a set start
  time is never changed; a portion appended in a pass, and the initial portion, start
  unset. The claim as written says that \<open>t\<close> minus the start time is not negative; in
  double precision that difference is \<^verbatim>\<open>nan\<close> when \<^verbatim>\<open>strain_step / rate\<close> overflows
  and both are infinite.
\<close>

theorem start_time_set_once:
  assumes "0 < strain_step c" "0 < rate"
  shows "(\<forall>j i. i < length (portions_after c rate j) \<longrightarrow>
        (start_time (portions_after c rate j ! i) = - 1 \<or>
         0 \<le> start_time (portions_after c rate j ! i) \<and>
         start_time (portions_after c rate j ! i) \<le> st_t (state_after c rate j)) \<and>
        (start_time (portions_after c rate j ! i) = - 1 \<and>
         strain (portions_after c rate j ! i) < strain_critical c \<longrightarrow>
           start_time (portions_after c rate (Suc j) ! i) = - 1) \<and>
        (start_time (portions_after c rate j ! i) = - 1 \<and>
         strain_critical c \<le> strain (portions_after c rate j ! i) \<longrightarrow>
           start_time (portions_after c rate (Suc j) ! i) = st_t (state_after c rate j)) \<and>
        (start_time (portions_after c rate j ! i) \<noteq> - 1 \<longrightarrow>
           start_time (portions_after c rate (Suc j) ! i) =
             start_time (portions_after c rate j ! i))) \<and>
     (\<forall>j i. \<not> i < length (portions_after c rate j) \<and>
        i < length (portions_after c rate (Suc j)) \<longrightarrow>
        start_time (portions_after c rate (Suc j) ! i) = - 1) \<and>
     (\<forall>p \<in> set (portions_after c rate 0). start_time p = - 1)"
proof -
  have dt: "0 \<le> strain_step c / rate" and step: "0 \<le> strain_step c"
    using assms by simp_all
  have "start_time (portions_after c rate j ! i) = - 1 \<or>
         0 \<le> start_time (portions_after c rate j ! i) \<and>
         start_time (portions_after c rate j ! i) \<le> st_t (state_after c rate j)"
    if "i < length (portions_after c rate j)" for j i
    using dt step that by (rule start_time_range)
  moreover have "start_time (portions_after c rate (Suc j) ! i) =
     (if start_time (portions_after c rate j ! i) = - 1
      then (if strain_critical c \<le> strain (portions_after c rate j ! i)
            then st_t (state_after c rate j) else - 1)
      else start_time (portions_after c rate j ! i))"
    if "i < length (portions_after c rate j)" for j i
    using dt step that by (rule start_time_Suc)
  moreover have "start_time (portions_after c rate (Suc j) ! i) = - 1"
    if "\<not> i < length (portions_after c rate j) \<and> i < length (portions_after c rate (Suc j))"
    for j i
    using that by (simp add: nth_portions_new(2))
  moreover have "\<forall>p \<in> set (portions_after c rate 0). start_time p = - 1"
    by (simp add: after_steps_0 initial_def Portion_init_def)
  ultimately show ?thesis
    by (simp add: not_le)
qed

theorem start_time_set_once_witness:
  "0 < strain_step notebook \<and> (0::real) < 0.5 \<and>
   0 < length (portions_after notebook 0.5 25) \<and>
   start_time (portions_after notebook 0.5 25 ! 0) = - 1 \<and>
   strain_critical notebook \<le> strain (portions_after notebook 0.5 25 ! 0) \<and>
   start_time (portions_after notebook 0.5 26 ! 0) = st_t (state_after notebook 0.5 25) \<and>
   start_time (portions_after notebook 0.5 26 ! 0) = 1 \<and>
   start_time (portions_after notebook 0.5 27 ! 0) = 1 \<and>
   start_time (portions_after notebook 0.5 26 ! 0) \<le> st_t (state_after notebook 0.5 26)"
proof -
  have pos: "0 < strain_step notebook" "(0::real) < 0.5"
    by (simp_all add: notebook_simps)
  have dt: "0 < strain_step notebook / 0.5"
    by (simp add: notebook_simps)
  note inst = start_time_set_once [OF pos]
  have l25: "0 < length (portions_after notebook 0.5 25)"
    and s25: "start_time (portions_after notebook 0.5 25 ! 0) = - 1"
    and c25: "strain_critical notebook \<le> strain (portions_after notebook 0.5 25 ! 0)"
    by (simp_all add: notebook_portions_early) (simp add: notebook_simps)
  from inst l25 s25 c25 have "start_time (portions_after notebook 0.5 (Suc 25) ! 0) =
      st_t (state_after notebook 0.5 25)"
    by blast
  then have a: "start_time (portions_after notebook 0.5 26 ! 0) = st_t (state_after notebook 0.5 25)"
    by simp
  then have b: "start_time (portions_after notebook 0.5 26 ! 0) = 1"
    by (simp add: t_after_steps notebook_simps)
  have l26: "0 < length (portions_after notebook 0.5 26)"
    using notebook_portions_26(1) [OF dt] by simp
  have ne: "start_time (portions_after notebook 0.5 26 ! 0) \<noteq> - 1"
    using b by simp
  with inst l26 have "start_time (portions_after notebook 0.5 (Suc 26) ! 0) =
      start_time (portions_after notebook 0.5 26 ! 0)"
    by blast
  with b have c: "start_time (portions_after notebook 0.5 27 ! 0) = 1"
    by simp
  from inst l26 ne have d: "start_time (portions_after notebook 0.5 26 ! 0) \<le>
      st_t (state_after notebook 0.5 26)"
    by blast
  from pos l25 s25 c25 a b c d show ?thesis
    by simp
qed

theorem start_time_difference_counterexample:
  "dless (Finite 0) (Finite (2 powi 1000)) \<and> dless (Finite 0) (Finite (2 powi (- 100))) \<and>
   float_div (Finite (2 powi 1000)) (Finite (2 powi (- 100))) = Inr PInf \<and>
   map_option (map_sum id d_t)
     (while_loop_d \<lparr>strain_critical_d = Finite 0, strain_step_d = Finite (2 powi 1000),
                     strain_max_d = Finite (2 powi 1001)\<rparr> PInf initial_d) = Some (Inr PInf) \<and>
   map_option (map_sum id (map start_time_d \<circ> d_portions))
     (while_loop_d \<lparr>strain_critical_d = Finite 0, strain_step_d = Finite (2 powi 1000),
                     strain_max_d = Finite (2 powi 1001)\<rparr> PInf initial_d) =
     Some (Inr [Finite 0, PInf]) \<and>
   dsub PInf PInf = NaN \<and> \<not> dle (Finite 0) (dsub PInf PInf)"
  by (simp add: inf_run_loop eval_d del: powi_eval)

text \<open>
  C6 (strain of a portion). In every run (a nonzero rate): a portion that exists after
  \<open>j\<close> passes still exists after the next pass, which adds exactly \<open>strain_step\<close> to
  its strain, so for \<open>strain_step \<ge> 0\<close> the strain does not decrease. A portion that
  exists after pass \<open>k\<close> and not before it (appended in pass \<open>k\<close>; \<open>k = 0\<close> for the
  initial portion) has the strain \<open>(m - k) * strain_step\<close> after every pass
  \<open>m \<ge> k\<close>: pass \<open>k\<close> itself gives it no strain.
\<close>

theorem strain_of_portion:
  assumes "rate \<noteq> 0"
  shows "(\<forall>j i. i < length (portions_after c rate j) \<longrightarrow>
        i < length (portions_after c rate (Suc j)) \<and>
        strain (portions_after c rate (Suc j) ! i) =
          strain (portions_after c rate j ! i) + strain_step c \<and>
        (0 \<le> strain_step c \<longrightarrow>
          strain (portions_after c rate j ! i) \<le> strain (portions_after c rate (Suc j) ! i))) \<and>
     (\<forall>k i m. i < length (portions_after c rate k) \<and>
        (k = 0 \<or> \<not> i < length (portions_after c rate (k - 1))) \<and> k \<le> m \<longrightarrow>
        i < length (portions_after c rate m) \<and>
        strain (portions_after c rate m ! i) = real (m - k) * strain_step c)"
proof (intro conjI allI impI)
  fix j i assume i: "i < length (portions_after c rate j)"
  show "i < length (portions_after c rate (Suc j))"
    using i length_portions_Suc(1) [of c "strain_step c / rate" j] by simp
  show eq: "strain (portions_after c rate (Suc j) ! i) =
      strain (portions_after c rate j ! i) + strain_step c"
    using i by (simp add: nth_portions_Suc updated_simps)
  show "strain (portions_after c rate j ! i) \<le> strain (portions_after c rate (Suc j) ! i)"
    if "0 \<le> strain_step c"
    unfolding eq using that by simp
next
  fix k i m
  assume a: "i < length (portions_after c rate k) \<and>
        (k = 0 \<or> \<not> i < length (portions_after c rate (k - 1))) \<and> k \<le> m"
  show "i < length (portions_after c rate m)"
    using a length_portions_mono [of k m c "strain_step c / rate"] by simp
  show "strain (portions_after c rate m ! i) = real (m - k) * strain_step c"
    using a by (intro strain_nth_since) simp_all
qed

theorem strain_of_portion_witness:
  "(0.5::real) \<noteq> 0 \<and> 0 \<le> strain_step notebook \<and>
   1 < length (portions_after notebook 0.5 26) \<and>
   \<not> 1 < length (portions_after notebook 0.5 (26 - 1)) \<and> (26::nat) \<le> 30 \<and>
   strain (portions_after notebook 0.5 26 ! 1) = 0 \<and>
   strain (portions_after notebook 0.5 27 ! 1) =
     strain (portions_after notebook 0.5 26 ! 1) + strain_step notebook \<and>
   strain (portions_after notebook 0.5 26 ! 1) \<le> strain (portions_after notebook 0.5 27 ! 1) \<and>
   strain (portions_after notebook 0.5 30 ! 1) = real (30 - 26) * strain_step notebook"
proof -
  have rate: "(0.5::real) \<noteq> 0"
    by simp
  have step: "0 \<le> strain_step notebook"
    by (simp add: notebook_simps)
  have dt: "0 < strain_step notebook / 0.5"
    by (simp add: notebook_simps)
  have a: "1 < length (portions_after notebook 0.5 26)"
    using notebook_portions_26(1) [OF dt] by simp
  have b: "\<not> 1 < length (portions_after notebook 0.5 (26 - 1))"
    by (simp add: notebook_portions_early)
  note inst = strain_of_portion [OF rate, of notebook]
  from inst a have s: "strain (portions_after notebook 0.5 (Suc 26) ! 1) =
      strain (portions_after notebook 0.5 26 ! 1) + strain_step notebook"
    by blast
  from inst a step have le: "strain (portions_after notebook 0.5 26 ! 1) \<le>
      strain (portions_after notebook 0.5 (Suc 26) ! 1)"
    by blast
  from inst a b have "(26::nat) \<le> 26 \<longrightarrow>
      strain (portions_after notebook 0.5 26 ! 1) = real (26 - 26) * strain_step notebook"
    by blast
  then have z: "strain (portions_after notebook 0.5 26 ! 1) = 0"
    by simp
  from inst a b have "(26::nat) \<le> 30 \<longrightarrow>
      strain (portions_after notebook 0.5 30 ! 1) = real (30 - 26) * strain_step notebook"
    by blast
  then have m: "strain (portions_after notebook 0.5 30 ! 1) = real (30 - 26) * strain_step notebook"
    by simp
  have "Suc 26 = 27"
    by simp
  with s le have s': "strain (portions_after notebook 0.5 27 ! 1) =
      strain (portions_after notebook 0.5 26 ! 1) + strain_step notebook"
    and le': "strain (portions_after notebook 0.5 26 ! 1) \<le> strain (portions_after notebook 0.5 27 ! 1)"
    by simp_all
  from rate step a b z s' le' m show ?thesis
    by simp
qed




text \<open>
  C8 (order of the rates), as amended. For a positive \<open>strain_step\<close> and two rates
  \<open>0 < r1 < r2\<close> with the same settings, after any number of passes the two runs have
  rows with the same strains, and each row of the run at \<open>r1\<close> has a time that is not
  earlier than that of the row of the run at \<open>r2\<close> with the same strain. The claim as
  written says strictly later; in double precision two different rates can give the
  same \<^verbatim>\<open>strain_step / rate\<close> (here both quotients round to 0), and then the two
  runs return the same rows.
\<close>

theorem rate_ordering:
  assumes "0 < strain_step c" "0 < r1" "r1 < r2"
  shows "\<forall>j k. k < j \<longrightarrow>
     col_strain (st_results (state_after c r1 j) ! k) =
       col_strain (st_results (state_after c r2 j) ! k) \<and>
     col_t (st_results (state_after c r2 j) ! k) \<le> col_t (st_results (state_after c r1 j) ! k)"
proof (intro allI impI conjI)
  fix j k :: nat assume k: "k < j"
  show "col_strain (st_results (state_after c r1 j) ! k) =
      col_strain (st_results (state_after c r2 j) ! k)"
    using k by (simp add: results_after_steps_nth col_strain_def)
  have "strain_step c / r2 \<le> strain_step c / r1"
    using assms by (simp add: frac_le)
  then have "real (Suc k) * (strain_step c / r2) \<le> real (Suc k) * (strain_step c / r1)"
    by (intro mult_left_mono) simp_all
  then show "col_t (st_results (state_after c r2 j) ! k) \<le>
      col_t (st_results (state_after c r1 j) ! k)"
    using k by (simp add: results_after_steps_nth col_t_def)
qed

theorem rate_ordering_witness:
  "0 < strain_step notebook \<and> (0::real) < 0.2 \<and> (0.2::real) < 0.5 \<and> (9::nat) < 200 \<and>
   luton_sellars_solve notebook 0.2 = Some (Inr (st_results (state_after notebook 0.2 200))) \<and>
   luton_sellars_solve notebook 0.5 = Some (Inr (st_results (state_after notebook 0.5 200))) \<and>
   col_strain (st_results (state_after notebook 0.2 200) ! 9) =
     col_strain (st_results (state_after notebook 0.5 200) ! 9) \<and>
   col_t (st_results (state_after notebook 0.5 200) ! 9) \<le>
     col_t (st_results (state_after notebook 0.2 200) ! 9)"
proof -
  have h: "0 < strain_step notebook" "(0::real) < 0.2" "(0.2::real) < 0.5"
    by (simp_all add: notebook_simps)
  have k: "(9::nat) < 200"
    by simp
  have s1: "luton_sellars_solve notebook 0.2 = Some (Inr (st_results (state_after notebook 0.2 200)))"
    by (intro notebook_returns) simp
  have s2: "luton_sellars_solve notebook 0.5 = Some (Inr (st_results (state_after notebook 0.5 200)))"
    by (intro notebook_returns) simp
  note inst = rate_ordering [OF h]
  from inst k have "col_strain (st_results (state_after notebook 0.2 200) ! 9) =
     col_strain (st_results (state_after notebook 0.5 200) ! 9) \<and>
   col_t (st_results (state_after notebook 0.5 200) ! 9) \<le>
     col_t (st_results (state_after notebook 0.2 200) ! 9)"
    by blast
  with h k s1 s2 show ?thesis
    by blast
qed

theorem rate_ordering_counterexample:
  "dless (Finite 0) (Finite (2 powi 100)) \<and> dless (Finite (2 powi 100)) (Finite (2 powi 200)) \<and>
   luton_sellars_solve_d \<lparr>strain_critical_d = Finite 1, strain_step_d = Finite (2 powi (- 1000)),
     strain_max_d = Finite (2 powi (- 1000))\<rparr> (Finite (2 powi 100)) =
   Some (Inr [(Finite 0, Finite (2 powi (- 1000)),
            sum_stress_d
              [\<lparr>start_time_d = Finite (- 1), portion_d = Finite 1, start_portion_d = Finite 1,
                 strain_d = Finite (2 powi (- 1000))\<rparr>])]) \<and>
   luton_sellars_solve_d \<lparr>strain_critical_d = Finite 1, strain_step_d = Finite (2 powi (- 1000)),
     strain_max_d = Finite (2 powi (- 1000))\<rparr> (Finite (2 powi 200)) =
   Some (Inr [(Finite 0, Finite (2 powi (- 1000)),
            sum_stress_d
              [\<lparr>start_time_d = Finite (- 1), portion_d = Finite 1, start_portion_d = Finite 1,
                 strain_d = Finite (2 powi (- 1000))\<rparr>])]) \<and>
   \<not> dless (Finite 0) (Finite 0)"
  by (simp add: tiny_run powi_less del: powi_eval)

text \<open>
  C9 (the notebook's scenario at rate 0.5). The strain of the initial portion is below
  the critical strain after 24 passes and equals it after 25; there is one portion
  after 25 passes and there are two after 26; the run returns its rows, and the flow
  stress of the last row lies strictly between 0 and \<open>ludwik strain_max\<close>.
\<close>

theorem notebook_scenario:
  "strain (portions_after notebook 0.5 24 ! 0) < strain_critical notebook \<and>
   strain (portions_after notebook 0.5 25 ! 0) = strain_critical notebook \<and>
   length (portions_after notebook 0.5 25) = 1 \<and>
   length (portions_after notebook 0.5 26) = 2 \<and>
   (\<exists>rows. luton_sellars_solve notebook 0.5 = Some (Inr rows) \<and> rows \<noteq> [] \<and>
      0 < col_flow_stress (last rows) \<and>
      col_flow_stress (last rows) < ludwik (strain_max notebook))"
proof -
  let ?dt = "strain_step notebook / 0.5"
  have dt: "0 < ?dt"
    by (simp add: notebook_simps)
  have "strain (portions_after notebook 0.5 24 ! 0) < strain_critical notebook"
    by (simp add: notebook_portions_early) (simp add: notebook_simps)
  moreover have "strain (portions_after notebook 0.5 25 ! 0) = strain_critical notebook"
    by (simp add: notebook_portions_early) (simp add: notebook_simps)
  moreover have "length (portions_after notebook 0.5 25) = 1"
    by (simp add: notebook_portions_early)
  moreover have "length (portions_after notebook 0.5 26) = 2"
    using dt by (rule notebook_portions_26(1))
  moreover have "\<exists>rows. luton_sellars_solve notebook 0.5 = Some (Inr rows) \<and> rows \<noteq> [] \<and>
      0 < col_flow_stress (last rows) \<and>
      col_flow_stress (last rows) < ludwik (strain_max notebook)"
  proof -
    let ?rows = "st_results (state_after notebook 0.5 200)"
    let ?ps = "portions_after notebook 0.5 200"
    have solve: "luton_sellars_solve notebook 0.5 = Some (Inr ?rows)"
      using solve_returns [of notebook "0.5"] by (simp add: notebook_simps)
    have len: "length ?rows = 200"
      by (rule length_results_after_steps)
    then have ne: "?rows \<noteq> []"
      by auto
    have "last ?rows = ?rows ! (length ?rows - 1)"
      using ne by (rule last_conv_nth)
    then have "last ?rows = ?rows ! 199"
      unfolding len by simp
    then have last: "col_flow_stress (last ?rows) =
        sum_list (map (\<lambda>p. portion p * flow_stress p) ?ps)"
      by (simp add: results_after_steps_nth col_flow_stress_def)
    have i: "1 < length ?ps"
      using dt by (rule notebook_second_portion(1)) simp
    have "strain (?ps ! 1) = real (200 - 26) * strain_step notebook"
      using dt by (rule notebook_second_portion(2)) simp
    then have less: "strain (?ps ! 1) < real 200 * strain_step notebook"
      by (simp add: notebook_simps)
    have "0 < sum_list (map (\<lambda>p. portion p * flow_stress p) ?ps)"
      using stress_bounds(1) [OF _ _ i less] dt by (simp add: notebook_simps)
    moreover have "sum_list (map (\<lambda>p. portion p * flow_stress p) ?ps) <
        ludwik (real 200 * strain_step notebook)"
      using stress_bounds(2) [OF _ _ i less] dt by (simp add: notebook_simps)
    moreover have "real 200 * strain_step notebook = strain_max notebook"
      by (simp add: notebook_simps)
    ultimately show ?thesis
      using solve ne last by (intro exI [of _ ?rows]) simp
  qed
  ultimately show ?thesis
    by blast
qed

text \<open>
  C10 (time and strain of a row). For a positive \<open>strain_step\<close>, \<open>strain_max\<close> and
  rate, in exact arithmetic: after any number \<open>j\<close> of passes the \<open>k\<close>-th row (counted
  from 0, \<open>k < j\<close>) has \<open>t = (k + 1) * strain_step / rate\<close> and
  \<open>strain = (k + 1) * strain_step\<close>, hence \<open>t * rate = strain\<close>; and the rows that a
  run returns are the rows after as many passes as it has rows.
\<close>

theorem rows_couple_time_and_strain:
  assumes "0 < strain_step c" "0 < strain_max c" "0 < rate"
  shows "(\<forall>j k. k < j \<longrightarrow>
        col_t (st_results (state_after c rate j) ! k) = real (k + 1) * strain_step c / rate \<and>
        col_strain (st_results (state_after c rate j) ! k) = real (k + 1) * strain_step c \<and>
        col_t (st_results (state_after c rate j) ! k) * rate =
          col_strain (st_results (state_after c rate j) ! k)) \<and>
     (\<forall>rows. luton_sellars_solve c rate = Some (Inr rows) \<longrightarrow>
        rows = st_results (state_after c rate (length rows)))"
proof (intro conjI allI impI)
  fix j k :: nat assume k: "k < j"
  show t: "col_t (st_results (state_after c rate j) ! k) = real (k + 1) * strain_step c / rate"
    using k by (simp add: results_after_steps_nth col_t_def)
  show s: "col_strain (st_results (state_after c rate j) ! k) = real (k + 1) * strain_step c"
    using k by (simp add: results_after_steps_nth col_strain_def)
  show "col_t (st_results (state_after c rate j) ! k) * rate =
      col_strain (st_results (state_after c rate j) ! k)"
    unfolding t s using assms(3) by simp
next
  fix rows assume "luton_sellars_solve c rate = Some (Inr rows)"
  then show "rows = st_results (state_after c rate (length rows))"
    using assms by (intro returned_rows) simp_all
qed

theorem rows_couple_time_and_strain_witness:
  "0 < strain_step notebook \<and> 0 < strain_max notebook \<and> (0::real) < 0.5 \<and> (2::nat) < 200 \<and>
   luton_sellars_solve notebook 0.5 = Some (Inr (st_results (state_after notebook 0.5 200))) \<and>
   col_t (st_results (state_after notebook 0.5 200) ! 2) = 3 * 0.02 / 0.5 \<and>
   col_strain (st_results (state_after notebook 0.5 200) ! 2) = 3 * 0.02 \<and>
   col_t (st_results (state_after notebook 0.5 200) ! 2) * 0.5 =
     col_strain (st_results (state_after notebook 0.5 200) ! 2)"
proof -
  have h: "0 < strain_step notebook" "0 < strain_max notebook" "(0::real) < 0.5"
    by (simp_all add: notebook_simps)
  have k: "(2::nat) < 200"
    by simp
  have s: "luton_sellars_solve notebook 0.5 = Some (Inr (st_results (state_after notebook 0.5 200)))"
    by (intro notebook_returns) simp
  note inst = rows_couple_time_and_strain [OF h]
  from inst k have "col_t (st_results (state_after notebook 0.5 200) ! 2) =
        real (2 + 1) * strain_step notebook / 0.5 \<and>
      col_strain (st_results (state_after notebook 0.5 200) ! 2) =
        real (2 + 1) * strain_step notebook \<and>
      col_t (st_results (state_after notebook 0.5 200) ! 2) * 0.5 =
        col_strain (st_results (state_after notebook 0.5 200) ! 2)"
    by blast
  with h k s show ?thesis
    by (simp add: notebook_simps)
qed

end
